theory Spec2Isabelle
  imports Main "HOL-Library.AList"
begin

section \<open>JavaScript strings\<close>

text \<open>
  A JavaScript string is a sequence of UTF-16 code units and \<open>s.length\<close> counts code
  units. The model uses \<open>string\<close>, one \<open>char\<close> per code unit (the code units
  0 to 255), so \<open>length\<close> is \<open>.length\<close>.
\<close>

definition startsWith :: "string \<Rightarrow> string \<Rightarrow> bool" where
  \<comment> \<open>\<open>s.startsWith(p)\<close>\<close>
  "startsWith s p = (take (length p) s = p)"

definition endsWith :: "string \<Rightarrow> string \<Rightarrow> bool" where
  \<comment> \<open>\<open>s.endsWith(p)\<close>\<close>
  "endsWith s p = (length p \<le> length s \<and> drop (length s - length p) s = p)"

fun includes_str :: "string \<Rightarrow> string \<Rightarrow> bool" where
  \<comment> \<open>\<open>s.includes(p)\<close>: \<open>p\<close> occurs at some position of \<open>s\<close>\<close>
  "includes_str [] p = (p = [])"
| "includes_str (c # cs) p = (startsWith (c # cs) p \<or> includes_str cs p)"

definition isWhiteSpace :: "char \<Rightarrow> bool" where
  \<comment> \<open>the white space and line terminators of ECMAScript among the code units 0 to 255:
      TAB, LF, VT, FF, CR, SP, NBSP; both \<open>String.prototype.trim\<close> and the regular
      expression class \<open>\s\<close> use this set\<close>
  "isWhiteSpace c =
     (c = CHR 0x09 \<or> c = CHR 0x0A \<or> c = CHR 0x0B \<or> c = CHR 0x0C \<or> c = CHR 0x0D \<or>
      c = CHR 0x20 \<or> c = CHR 0xA0)"

definition trim :: "string \<Rightarrow> string" where
  \<comment> \<open>\<open>s.trim()\<close>\<close>
  "trim s = rev (dropWhile isWhiteSpace (rev (dropWhile isWhiteSpace s)))"

definition slice :: "string \<Rightarrow> int \<Rightarrow> int \<Rightarrow> string" where
  \<comment> \<open>\<open>s.slice(start, end)\<close>: a negative index counts from the end, both are clamped to
      the string, and an end before the start gives the empty string\<close>
  "slice s start end' =
     (let n = int (length s);
          from = (if start < 0 then max (n + start) 0 else min start n);
          to = (if end' < 0 then max (n + end') 0 else min end' n)
      in take (nat (to - from)) (drop (nat from) s))"

definition digitChar :: "nat \<Rightarrow> char" where
  "digitChar d =
     (if d = 0 then CHR ''0'' else if d = 1 then CHR ''1'' else if d = 2 then CHR ''2''
      else if d = 3 then CHR ''3'' else if d = 4 then CHR ''4'' else if d = 5 then CHR ''5''
      else if d = 6 then CHR ''6'' else if d = 7 then CHR ''7'' else if d = 8 then CHR ''8''
      else CHR ''9'')"

fun showNat :: "nat \<Rightarrow> string" where
  "showNat n = (if n < 10 then [digitChar n] else showNat (n div 10) @ [digitChar (n mod 10)])"

definition showInt :: "int \<Rightarrow> string" where
  \<comment> \<open>an integer inside a template literal, \<open>`${n}`\<close>: decimal digits after a minus sign
      (JavaScript switches to exponent notation from \<open>10^21\<close> on; the trace's
      microsecond timestamps stay far below)\<close>
  "showInt i = (if i < 0 then CHR ''-'' # showNat (nat (- i)) else showNat (nat i))"

section \<open>The trace data the agent reads\<close>

text \<open>
  The trace model (\<open>Trace.*\<close>), the call tree (\<open>AICallTree\<close>) and the formatters are
  not part of the sources at hand. Objects carry the fields the agent reads directly and an
  explicit reference where the code compares or stores them by identity (\<open>Map\<close>,
  \<open>WeakSet\<close>, \<open>!==\<close>); every function of those modules that the agent calls is a
  field of the environment \<open>Env\<close> below.
\<close>

record TraceWindowMicro =
  minMicro :: int  \<comment> \<open>\<open>min\<close>\<close>
  maxMicro :: int  \<comment> \<open>\<open>max\<close>\<close>

record TraceEvent =
  eventRef :: nat
  args_data_url :: string  \<comment> \<open>\<open>request.args.data.url\<close> of a network request\<close>

record InsightModel =
  insightRef :: nat
  insightKey :: string

record InsightSet =
  navigation :: bool  \<comment> \<open>whether \<open>set.navigation\<close> is present\<close>
  model :: "(string \<times> InsightModel) list"  \<comment> \<open>the own properties of \<open>insightSet.model\<close>\<close>

text \<open>
  \<open>insightSet.model[name]\<close> reads a property of a plain object: an own property if there
  is one under the name, else the property that the object inherits from
  \<open>Object.prototype\<close> under the name, else \<open>undefined\<close>. The inherited properties are
  functions (and, under \<open>__proto__\<close>, the prototype itself), none of them falsy.
\<close>

definition Object_prototype_properties :: "string list" where
  "Object_prototype_properties =
     [''constructor'', ''__defineGetter__'', ''__defineSetter__'', ''hasOwnProperty'',
      ''__lookupGetter__'', ''__lookupSetter__'', ''isPrototypeOf'', ''propertyIsEnumerable'',
      ''toString'', ''valueOf'', ''__proto__'', ''toLocaleString'']"

datatype ModelProperty =
  OwnInsight InsightModel  \<comment> \<open>an own property, an insight\<close>
| InheritedProperty string  \<comment> \<open>the property of \<open>Object.prototype\<close> under this name\<close>

definition getModelProperty :: "InsightSet \<Rightarrow> string \<Rightarrow> ModelProperty option" where
  \<comment> \<open>\<open>insightSet.model[name]\<close>, \<open>None\<close> for \<open>undefined\<close>\<close>
  "getModelProperty s name =
     (case map_of (model s) name of
        Some i \<Rightarrow> Some (OwnInsight i)
      | None \<Rightarrow>
          if name \<in> set Object_prototype_properties then Some (InheritedProperty name)
          else None)"

record ParsedTrace =
  insights :: "InsightSet list option"  \<comment> \<open>\<open>parsedTrace.insights\<close>, \<open>None\<close> when missing\<close>
  traceBounds :: TraceWindowMicro  \<comment> \<open>\<open>parsedTrace.data.Meta.traceBounds\<close>\<close>
  networkRequests_byTime :: "TraceEvent list"  \<comment> \<open>\<open>parsedTrace.data.NetworkRequests.byTime\<close>\<close>
  enhancedTraceVersion :: bool  \<comment> \<open>\<open>parsedTrace.metadata.enhancedTraceVersion\<close> is truthy\<close>
  scripts_someContent :: bool  \<comment> \<open>\<open>parsedTrace.data.Scripts.scripts.some(s => s.content)\<close>\<close>

record AICallTree =
  callTreeRef :: nat
  callTree_parsedTrace :: ParsedTrace  \<comment> \<open>\<open>callTree.parsedTrace\<close>\<close>

record AgentFocusData =
  parsedTrace :: ParsedTrace
  event :: "TraceEvent option"  \<comment> \<open>Note: at most one of event or callTree is non-null.\<close>
  callTree :: "AICallTree option"  \<comment> \<open>Note: at most one of event or callTree is non-null.\<close>
  insight :: "InsightModel option"

text \<open>
  The focus as the agent holds it: the object's identity (the key of the function-call
  cache), its data, and the insight set (the agent reads \<open>focus.data.insightSet\<close>;
  \<open>AgentFocus\<close> keeps it beside the data as \<open>primaryInsightSet\<close>).
\<close>

record Focus =
  focusRef :: nat
  data :: AgentFocusData
  insightSet :: "InsightSet option"

datatype ResourceContent =
  ResourceNotFound  \<comment> \<open>\<open>resourceForURL(url)\<close> is null\<close>
| ContentError string  \<comment> \<open>\<open>requestContentData()\<close> gave \<open>{error}\<close>\<close>
| ContentText string  \<comment> \<open>\<open>requestContentData()\<close> gave \<open>{text}\<close>\<close>

record Env =
  eventForKey :: "string \<Rightarrow> ParsedTrace \<Rightarrow> string + TraceEvent"
    \<comment> \<open>\<open>eventsSerializer.eventForKey(key, parsedTrace)\<close>: \<open>Inl\<close> is a thrown error,
        given by its \<open>toString()\<close>\<close>
  keyForEvent :: "TraceEvent \<Rightarrow> string option"
    \<comment> \<open>\<open>eventsSerializer.keyForEvent(event)\<close>, \<open>None\<close> for null\<close>
  isSyntheticNetworkRequest :: "TraceEvent \<Rightarrow> bool"
  AICallTree_fromEvent :: "TraceEvent \<Rightarrow> ParsedTrace \<Rightarrow> AICallTree option"
  JSON_stringify :: "TraceEvent \<Rightarrow> string"
  serialize :: "AICallTree \<Rightarrow> string"  \<comment> \<open>\<open>callTree.serialize()\<close>\<close>
  formatTraceSummary :: "Focus \<Rightarrow> string"
    \<comment> \<open>the methods of \<open>new PerformanceTraceFormatter(focus)\<close> take that focus first\<close>
  formatCriticalRequests :: "Focus \<Rightarrow> string"
  formatMainThreadBottomUpSummary :: "Focus \<Rightarrow> string"
  formatThirdPartySummary :: "Focus \<Rightarrow> string"
  formatLongestTasks :: "Focus \<Rightarrow> string"
  formatMainThreadTrackSummary :: "Focus \<Rightarrow> TraceWindowMicro \<Rightarrow> string"
  formatNetworkTrackSummary :: "Focus \<Rightarrow> TraceWindowMicro \<Rightarrow> string"
  formatCallTree :: "Focus \<Rightarrow> AICallTree \<Rightarrow> string"
  formatInsight :: "Focus \<Rightarrow> InsightModel \<Rightarrow> string"
    \<comment> \<open>\<open>new PerformanceInsightFormatter(focus, insight).formatInsight()\<close>\<close>
  formatInsight_inherited :: "Focus \<Rightarrow> string \<Rightarrow> string + string"
    \<comment> \<open>the same expression when \<open>insight\<close> is not an insight but the property of
        \<open>Object.prototype\<close> under this name: \<open>Inl\<close> is a thrown error, given by its
        \<open>toString()\<close>, \<open>Inr\<close> the text\<close>
  networkDataFormatDescription :: string
    \<comment> \<open>\<open>PerformanceTraceFormatter.networkDataFormatDescription\<close>\<close>
  recordingIsFresh :: "ParsedTrace \<Rightarrow> bool"
    \<comment> \<open>\<open>Tracing.FreshRecording.Tracker.instance().recordingIsFresh(parsedTrace)\<close>\<close>
  resourceContent :: "string \<Rightarrow> ResourceContent"
    \<comment> \<open>\<open>ResourceTreeModel.resourceForURL(url)\<close> and its \<open>requestContentData()\<close>\<close>

section \<open>AgentFocus\<close>

text \<open>
  \<open>new AgentFocus(data)\<close> keeps the reference to \<open>data\<close>, it does not copy it, and
  \<open>withInsight\<close> and \<open>withEvent\<close> pass \<open>this.#data\<close> on and then assign to its
  fields: the derived focus and the one it was derived from share one data object. The data
  objects therefore live in a store, a focus holds the address of its data.
\<close>

type_synonym Store = "AgentFocusData list"

record AgentFocus =
  dataRef :: nat  \<comment> \<open>the address of \<open>#data\<close>\<close>
  primaryInsightSet :: "InsightSet option"

definition getPrimaryInsightSet :: "InsightSet list \<Rightarrow> InsightSet option" where
  "getPrimaryInsightSet insightSets =
     (case insightSets of
        [] \<Rightarrow> None
      | [s] \<Rightarrow> Some s
      | s # _ \<Rightarrow> (case filter navigation insightSets of n # _ \<Rightarrow> Some n | [] \<Rightarrow> Some s))"

definition new_AgentFocus :: "Store \<Rightarrow> nat \<Rightarrow> string + AgentFocus" where
  \<comment> \<open>the constructor, given the address of the data object; \<open>Inl\<close> is the thrown error.
      A reference always points into the store, the first case is there to make the
      function total.\<close>
  "new_AgentFocus store r =
     (if length store \<le> r then Inl ''invalid reference''
      else case insights (parsedTrace (store ! r)) of
             None \<Rightarrow> Inl ''missing insights''
           | Some sets \<Rightarrow> Inr \<lparr>dataRef = r, primaryInsightSet = getPrimaryInsightSet sets\<rparr>)"

definition new_data :: "Store \<Rightarrow> AgentFocusData \<Rightarrow> string + AgentFocus \<times> Store" where
  \<comment> \<open>\<open>new AgentFocus({...})\<close> on an object literal: the literal is a new data object\<close>
  "new_data store d =
     (case new_AgentFocus (store @ [d]) (length store) of
        Inl e \<Rightarrow> Inl e
      | Inr f \<Rightarrow> Inr (f, store @ [d]))"

definition getCallTreeOrEvent ::
  "Env \<Rightarrow> ParsedTrace \<Rightarrow> TraceEvent option \<Rightarrow> AICallTree option \<times> TraceEvent option" where
  \<comment> \<open>the result is the pair \<open>(callTree, event)\<close>\<close>
  "getCallTreeOrEvent env pt ev =
     (case (case ev of None \<Rightarrow> None | Some e \<Rightarrow> AICallTree_fromEvent env e pt) of
        Some ct \<Rightarrow> (Some ct, None)
      | None \<Rightarrow>
          (case ev of
             Some e \<Rightarrow> if isSyntheticNetworkRequest env e then (None, Some e) else (None, None)
           | None \<Rightarrow> (None, None)))"

definition fromParsedTrace :: "Store \<Rightarrow> ParsedTrace \<Rightarrow> string + AgentFocus \<times> Store" where
  "fromParsedTrace store pt =
     (if insights pt = None then Inl ''missing insights''
      else new_data store \<lparr>parsedTrace = pt, event = None, callTree = None, insight = None\<rparr>)"

definition fromInsight ::
  "Store \<Rightarrow> ParsedTrace \<Rightarrow> InsightModel \<Rightarrow> string + AgentFocus \<times> Store" where
  "fromInsight store pt i =
     (if insights pt = None then Inl ''missing insights''
      else new_data store \<lparr>parsedTrace = pt, event = None, callTree = None, insight = Some i\<rparr>)"

definition fromEvent ::
  "Env \<Rightarrow> Store \<Rightarrow> ParsedTrace \<Rightarrow> TraceEvent \<Rightarrow> string + AgentFocus \<times> Store" where
  "fromEvent env store pt e =
     (if insights pt = None then Inl ''missing insights''
      else let result = getCallTreeOrEvent env pt (Some e)
           in new_data store
                \<lparr>parsedTrace = pt, event = snd result, callTree = fst result, insight = None\<rparr>)"

definition fromCallTree :: "Store \<Rightarrow> AICallTree \<Rightarrow> string + AgentFocus \<times> Store" where
  "fromCallTree store ct =
     new_data store
       \<lparr>parsedTrace = callTree_parsedTrace ct, event = None, callTree = Some ct, insight = None\<rparr>"

definition withInsight ::
  "Store \<Rightarrow> AgentFocus \<Rightarrow> InsightModel option \<Rightarrow> string + AgentFocus \<times> Store" where
  "withInsight store this i =
     (case new_AgentFocus store (dataRef this) of
        Inl e \<Rightarrow> Inl e
      | Inr focus \<Rightarrow>
          Inr (focus, store[dataRef focus := (store ! dataRef focus)\<lparr>insight := i\<rparr>]))"

definition withEvent ::
  "Env \<Rightarrow> Store \<Rightarrow> AgentFocus \<Rightarrow> TraceEvent option \<Rightarrow> string + AgentFocus \<times> Store" where
  "withEvent env store this ev =
     (case new_AgentFocus store (dataRef this) of
        Inl e \<Rightarrow> Inl e
      | Inr focus \<Rightarrow>
          (let result = getCallTreeOrEvent env (parsedTrace (store ! dataRef this)) ev
           in Inr (focus,
                   store[dataRef focus :=
                     (store ! dataRef focus)\<lparr>callTree := fst result, event := snd result\<rparr>])))"

definition lookupEvent :: "Env \<Rightarrow> AgentFocusData \<Rightarrow> string \<Rightarrow> string + TraceEvent option" where
  \<comment> \<open>\<open>Inl\<close> is the error thrown again by the \<open>catch\<close> block, \<open>Inr None\<close> is null\<close>
  "lookupEvent env d key =
     (case eventForKey env key (parsedTrace d) of
        Inr e \<Rightarrow> Inr (Some e)
      | Inl err \<Rightarrow>
          if includes_str err ''Unknown trace event'' \<or> includes_str err ''Unknown profile call''
          then Inr None
          else Inl err)"

text \<open>
  The focus objects that the six operations can produce, with the store they leave:
  \<open>produced env store fs\<close> holds when \<open>fs\<close> are the focus objects made so far.
\<close>

inductive produced :: "Env \<Rightarrow> Store \<Rightarrow> AgentFocus list \<Rightarrow> bool" for env :: Env where
  p_none: "produced env [] []"
| p_fromParsedTrace:
    "produced env store fs \<Longrightarrow> fromParsedTrace store pt = Inr (f, store') \<Longrightarrow>
     produced env store' (f # fs)"
| p_fromInsight:
    "produced env store fs \<Longrightarrow> fromInsight store pt i = Inr (f, store') \<Longrightarrow>
     produced env store' (f # fs)"
| p_fromEvent:
    "produced env store fs \<Longrightarrow> fromEvent env store pt e = Inr (f, store') \<Longrightarrow>
     produced env store' (f # fs)"
| p_fromCallTree:
    "produced env store fs \<Longrightarrow> fromCallTree store ct = Inr (f, store') \<Longrightarrow>
     produced env store' (f # fs)"
| p_withInsight:
    "produced env store fs \<Longrightarrow> this \<in> set fs \<Longrightarrow> withInsight store this io = Inr (f, store') \<Longrightarrow>
     produced env store' (f # fs)"
| p_withEvent:
    "produced env store fs \<Longrightarrow> this \<in> set fs \<Longrightarrow> withEvent env store this eo = Inr (f, store') \<Longrightarrow>
     produced env store' (f # fs)"

definition atMostOne :: "AgentFocusData \<Rightarrow> bool" where
  \<comment> \<open>at most one of event or callTree is non-null\<close>
  "atMostOne d = (event d = None \<or> callTree d = None)"

section \<open>PerformanceAgent: facts, state and the function-call cache\<close>

datatype ScorePriority = REQUIRED | CRITICAL | DEFAULT

definition scoreValue :: "ScorePriority \<Rightarrow> nat" where
  "scoreValue p = (case p of REQUIRED \<Rightarrow> 3 | CRITICAL \<Rightarrow> 2 | DEFAULT \<Rightarrow> 1)"

record RequestFact =
  fact_text :: string  \<comment> \<open>\<open>text\<close>\<close>
  source :: string  \<comment> \<open>\<open>metadata.source\<close>\<close>
  score :: ScorePriority  \<comment> \<open>\<open>metadata.score\<close>\<close>

record PerformanceTraceContext =
  focus :: Focus  \<comment> \<open>\<open>getItem()\<close>\<close>
  external :: bool

record ContextResponse =
  title :: string
  details :: "(string \<times> string) list"  \<comment> \<open>each a \<open>{title, text}\<close>\<close>

definition extraPreambleWhenNotExternal :: string where
  "extraPreambleWhenNotExternal =
     ''Additional notes:\<newline>''
   @ ''\<newline>''
   @ ''When referring to a trace event that has a corresponding `eventKey`, annotate your output using markdown link syntax. For example:\<newline>''
   @ ''- When referring to an event that is a long task: [Long task](#r-123)\<newline>''
   @ ''- When referring to a URL for which you know the eventKey of: [https://www.example.com](#s-1827)\<newline>''
   @ ''- Never show the eventKey (like \"eventKey: s-1852\"); instead, use a markdown link as described above.\<newline>''"

definition callFrameDataFormatDescription :: string where
  "callFrameDataFormatDescription =
     ''Each call frame is presented in the following format:\<newline>''
   @ ''\<newline>''
   @ [CHR 0x27] @ ''id;name;duration;selfTime;urlIndex;childRange;[S]'\<newline>''
   @ ''\<newline>''
   @ ''Key definitions:\<newline>''
   @ ''\<newline>''
   @ ''* id: A unique numerical identifier for the call frame. Never mention this id in the output to the user.\<newline>''
   @ ''* name: A concise string describing the call frame (e.g., 'Evaluate Script', 'render', 'fetchData').\<newline>''
   @ ''* duration: The total execution time of the call frame, including its children.\<newline>''
   @ ''* selfTime: The time spent directly within the call frame, excluding its children's execution.\<newline>''
   @ ''* urlIndex: Index referencing the \"All URLs\" list. Empty if no specific script URL is associated.\<newline>''
   @ ''* childRange: Specifies the direct children of this node using their IDs. If empty ('' @ [CHR 0x27, CHR 0x27] @ '' or 'S' at the end), the node has no children. If a single number (e.g., '4'), the node has one child with that ID. If in the format 'firstId-lastId' (e.g., '4-5'), it indicates a consecutive range of child IDs from 'firstId' to 'lastId', inclusive.\<newline>''
   @ ''* S: _Optional_. The letter 'S' terminates the line if that call frame was selected by the user.\<newline>''
   @ ''\<newline>''
   @ ''Example Call Tree:\<newline>''
   @ ''\<newline>''
   @ ''1;main;500;100;;\<newline>''
   @ ''2;update;200;50;;3\<newline>''
   @ ''3;animate;150;20;0;4-5;S\<newline>''
   @ ''4;calculatePosition;80;80;;\<newline>''
   @ ''5;applyStyles;50;50;;\<newline>''"

definition MAX_FUNCTION_RESULT_BYTE_LENGTH :: nat where
  \<comment> \<open>16k Tokens * ~4 char per token.\<close>
  "MAX_FUNCTION_RESULT_BYTE_LENGTH = 16384 * 4"

text \<open>
  One agent is one conversation. Its state: the private fields of \<open>PerformanceAgent\<close>;
  then what it keeps in the base class \<open>AiAgent\<close> (the fact store, the declared
  functions and the current context; the base class is not part of the sources at hand);
  then the traces of its two outward effects, \<open>debugLog\<close> and \<open>Revealer.reveal\<close>.
  \<open>functionCallCacheForFocus\<close> is the \<open>Map\<close> from focus objects to records of facts:
  it is keyed by the focus's identity, and a record lists its keys in insertion order (all
  keys here start with a letter).
\<close>

record PerformanceAgent =
  formatter :: "Focus option"
    \<comment> \<open>the focus that \<open>new PerformanceTraceFormatter(focus)\<close> was made with\<close>
  lastInsightForEnhancedQuery :: "InsightModel option"
  hasShownAnalyzeTraceContext :: bool
  functionCallCacheForFocus :: "nat \<Rightarrow> (string \<times> RequestFact) list option"
  traceFacts :: "RequestFact list"
  callTreeContextSet :: "nat set"  \<comment> \<open>the references of the call trees in the \<open>WeakSet\<close>\<close>
  facts :: "RequestFact list"
  functionDeclarations :: "(string \<times> PerformanceTraceContext) list"
    \<comment> \<open>name, and the context whose focus the handler closes over\<close>
  this_context :: "PerformanceTraceContext option"  \<comment> \<open>\<open>this.context\<close>\<close>
  debugLogged :: "(string \<times> string list) list"
  revealed :: "TraceEvent list"

definition initialAgent :: PerformanceAgent where
  \<comment> \<open>the field initialisers of a new agent\<close>
  "initialAgent =
     \<lparr>formatter = None, lastInsightForEnhancedQuery = None,
      hasShownAnalyzeTraceContext = False, functionCallCacheForFocus = (\<lambda>_. None),
      traceFacts = [], callTreeContextSet = {}, facts = [], functionDeclarations = [],
      this_context = None, debugLogged = [], revealed = []\<rparr>"

definition clearFacts :: "PerformanceAgent \<Rightarrow> PerformanceAgent" where
  \<comment> \<open>Modelled from the spec: \<open>clearFacts()\<close> of the base class AiAgent, which is not
      among the sources; it empties the fact store.\<close>
  "clearFacts st = st\<lparr>facts := []\<rparr>"

definition addFact :: "PerformanceAgent \<Rightarrow> RequestFact \<Rightarrow> PerformanceAgent" where
  \<comment> \<open>Modelled from the spec: \<open>addFact(fact)\<close> of the base class AiAgent, which is not
      among the sources; the fact store keeps its facts in insertion order. (The fact
      objects added between two \<open>clearFacts()\<close> are pairwise distinct objects, so a store
      that is a set of objects keeps each of them.)\<close>
  "addFact st f = st\<lparr>facts := facts st @ [f]\<rparr>"

definition clearDeclaredFunctions :: "PerformanceAgent \<Rightarrow> PerformanceAgent" where
  \<comment> \<open>Modelled from the spec: \<open>clearDeclaredFunctions()\<close> of the base class AiAgent, which
      is not among the sources; it resets the set of declared functions.\<close>
  "clearDeclaredFunctions st = st\<lparr>functionDeclarations := []\<rparr>"

definition declareFunction ::
  "PerformanceAgent \<Rightarrow> string \<Rightarrow> PerformanceTraceContext \<Rightarrow> PerformanceAgent" where
  \<comment> \<open>Modelled from the spec: \<open>declareFunction(name, ...)\<close> of the base class AiAgent,
      which is not among the sources; it registers the function under its name. (The
      names declared after one \<open>clearDeclaredFunctions()\<close> are pairwise different.)\<close>
  "declareFunction st name ctx = st\<lparr>functionDeclarations := functionDeclarations st @ [(name, ctx)]\<rparr>"

definition debugLog :: "PerformanceAgent \<Rightarrow> string \<Rightarrow> string list \<Rightarrow> PerformanceAgent" where
  \<comment> \<open>\<open>debugLog(message, params)\<close>; the log is kept as a trace\<close>
  "debugLog st message params = st\<lparr>debugLogged := debugLogged st @ [(message, params)]\<rparr>"

definition isFunctionResponseTooLarge :: "string \<Rightarrow> bool" where
  "isFunctionResponseTooLarge response = (length response > MAX_FUNCTION_RESULT_BYTE_LENGTH)"

definition cacheFunctionResult ::
  "PerformanceAgent \<Rightarrow> Focus \<Rightarrow> string \<Rightarrow> string \<Rightarrow> PerformanceAgent" where
  "cacheFunctionResult st fo key result =
     (let fact = \<lparr>fact_text = ''This is the result of calling '' @ key @ '':\<newline>'' @ result,
                  source = key, score = DEFAULT\<rparr>;
          cache = (case functionCallCacheForFocus st (focusRef fo) of None \<Rightarrow> [] | Some c \<Rightarrow> c)
      in st\<lparr>functionCallCacheForFocus :=
              (functionCallCacheForFocus st)(focusRef fo := Some (AList.update key fact cache))\<rparr>)"

subsection \<open>The fact store at the start of a turn\<close>

definition pushTraceFact ::
  "PerformanceAgent \<Rightarrow> (Focus \<Rightarrow> string) \<Rightarrow> (string \<Rightarrow> string) \<Rightarrow> ScorePriority \<Rightarrow> PerformanceAgent" where
  \<comment> \<open>the common shape of the five \<open>#createFactFor...\<close> methods: nothing without a
      formatter, nothing for an empty text, else one more trace fact\<close>
  "pushTraceFact st format wrap sc =
     (case formatter st of
        None \<Rightarrow> st
      | Some fm \<Rightarrow>
          (let text = format fm
           in if text = [] then st
              else st\<lparr>traceFacts := traceFacts st @
                     [\<lparr>fact_text = wrap text, source = ''devtools'', score = sc\<rparr>]\<rparr>))"

definition createFactForTraceSummary :: "Env \<Rightarrow> PerformanceAgent \<Rightarrow> PerformanceAgent" where
  "createFactForTraceSummary env st =
     pushTraceFact st (formatTraceSummary env) (\<lambda>text. ''Trace summary:\<newline>'' @ text) REQUIRED"

definition createFactForCriticalRequests :: "Env \<Rightarrow> PerformanceAgent \<Rightarrow> PerformanceAgent" where
  "createFactForCriticalRequests env st =
     pushTraceFact st (formatCriticalRequests env) (\<lambda>text. text) CRITICAL"

definition createFactForMainThreadBottomUpSummary :: "Env \<Rightarrow> PerformanceAgent \<Rightarrow> PerformanceAgent" where
  "createFactForMainThreadBottomUpSummary env st =
     pushTraceFact st (formatMainThreadBottomUpSummary env) (\<lambda>text. text) CRITICAL"

definition createFactForThirdPartySummary :: "Env \<Rightarrow> PerformanceAgent \<Rightarrow> PerformanceAgent" where
  "createFactForThirdPartySummary env st =
     pushTraceFact st (formatThirdPartySummary env) (\<lambda>text. text) CRITICAL"

definition createFactForLongestTasks :: "Env \<Rightarrow> PerformanceAgent \<Rightarrow> PerformanceAgent" where
  "createFactForLongestTasks env st =
     pushTraceFact st (formatLongestTasks env) (\<lambda>text. text) CRITICAL"

definition notExternalExtraPreambleFact :: RequestFact where
  "notExternalExtraPreambleFact =
     \<lparr>fact_text = extraPreambleWhenNotExternal, source = ''devtools'', score = CRITICAL\<rparr>"

definition networkDataDescriptionFact :: "Env \<Rightarrow> RequestFact" where
  "networkDataDescriptionFact env =
     \<lparr>fact_text = networkDataFormatDescription env, source = ''devtools'', score = CRITICAL\<rparr>"

definition callFrameDataDescriptionFact :: RequestFact where
  "callFrameDataDescriptionFact =
     \<lparr>fact_text = callFrameDataFormatDescription, source = ''devtools'', score = CRITICAL\<rparr>"

definition createTraceFacts :: "Env \<Rightarrow> PerformanceAgent \<Rightarrow> Focus \<Rightarrow> PerformanceAgent" where
  \<comment> \<open>the body of \<open>if (!this.#traceFacts.length)\<close> in \<open>#addFacts\<close>\<close>
  "createTraceFacts env st fo =
     createFactForLongestTasks env
       (createFactForThirdPartySummary env
         (createFactForMainThreadBottomUpSummary env
           (createFactForCriticalRequests env
             (createFactForTraceSummary env (st\<lparr>formatter := Some fo\<rparr>)))))"

definition addFacts :: "Env \<Rightarrow> PerformanceAgent \<Rightarrow> PerformanceTraceContext \<Rightarrow> PerformanceAgent" where
  "addFacts env st ctx =
     (let fo = focus ctx;
          st1 = (if \<not> external ctx then addFact st notExternalExtraPreambleFact else st);
          st2 = addFact st1 callFrameDataDescriptionFact;
          st3 = addFact st2 (networkDataDescriptionFact env);
          st4 = (if traceFacts st3 = [] then createTraceFacts env st3 fo else st3);
          st5 = foldl addFact st4 (traceFacts st4)
      in case functionCallCacheForFocus st5 (focusRef fo) of
           None \<Rightarrow> st5
         | Some cachedFunctionCalls \<Rightarrow> foldl addFact st5 (map snd cachedFunctionCalls))"

definition run :: "Env \<Rightarrow> PerformanceAgent \<Rightarrow> PerformanceTraceContext option \<Rightarrow> PerformanceAgent" where
  \<comment> \<open>\<open>run\<close> up to the point where it hands over to \<open>super.run\<close>\<close>
  "run env st selected =
     (let st1 = clearFacts st
      in case selected of None \<Rightarrow> st1 | Some ctx \<Rightarrow> addFacts env st1 ctx)"

definition handleContextDetails ::
  "Env \<Rightarrow> PerformanceAgent \<Rightarrow> PerformanceTraceContext option \<Rightarrow> ContextResponse list \<times> PerformanceAgent" where
  \<comment> \<open>the generator run to its end: the responses it yields and the state it leaves\<close>
  "handleContextDetails env st ctx =
     (case ctx of
        None \<Rightarrow> ([], st)
      | Some _ \<Rightarrow>
          if hasShownAnalyzeTraceContext st then ([], st)
          else ([\<lparr>title = ''Analyzing trace'',
                  details = [(''Trace'',
                    (case formatter st of None \<Rightarrow> [] | Some fm \<Rightarrow> formatTraceSummary env fm))]\<rparr>],
                st\<lparr>hasShownAnalyzeTraceContext := True\<rparr>))"

subsection \<open>The declared functions and their handlers\<close>

datatype ResultPayload =
  Details string  \<comment> \<open>\<open>{details}\<close>\<close>
| Summary string  \<comment> \<open>\<open>{summary}\<close>\<close>
| CallTreeText string  \<comment> \<open>\<open>{callTree}\<close>\<close>
| Content string  \<comment> \<open>\<open>{content}\<close>\<close>
| Success bool  \<comment> \<open>\<open>{success}\<close>\<close>

datatype FunctionResult =
  Error string  \<comment> \<open>\<open>{error}\<close>\<close>
| Result ResultPayload  \<comment> \<open>\<open>{result}\<close>\<close>

datatype HandlerOutcome =
  Returned FunctionResult
| Thrown string  \<comment> \<open>the handler's promise is rejected; the error by its \<open>toString()\<close>\<close>

definition createBounds :: "ParsedTrace \<Rightarrow> int \<Rightarrow> int \<Rightarrow> TraceWindowMicro option" where
  \<comment> \<open>both arguments are numbers (the schema declares them not nullable), so
      \<open>min ?? 0\<close> is \<open>min\<close> and \<open>max ?? Number.POSITIVE_INFINITY\<close> is \<open>max\<close>;
      \<open>traceWindowFromMicroSeconds\<close> gives the window with these two ends\<close>
  "createBounds pt min' max' =
     (if min' > max' then None
      else let clampedMin = max min' (minMicro (traceBounds pt));
               clampedMax = min max' (maxMicro (traceBounds pt))
           in if clampedMin > clampedMax then None
              else Some \<lparr>minMicro = clampedMin, maxMicro = clampedMax\<rparr>)"

definition getInsightDetails ::
  "Env \<Rightarrow> Focus \<Rightarrow> string \<Rightarrow> PerformanceAgent \<Rightarrow> HandlerOutcome \<times> PerformanceAgent" where
  "getInsightDetails env fo insightName st =
     (let st1 = debugLog st ''Function call: getInsightDetails'' [insightName];
          key = ''getInsightDetails('' @ [CHR 0x27] @ insightName @ [CHR 0x27] @ '')''
      in case (case insightSet fo of None \<Rightarrow> None | Some s \<Rightarrow> getModelProperty s insightName) of
           None \<Rightarrow> (Returned (Error ''No insight available''), st1)
         | Some (OwnInsight i) \<Rightarrow>
             (let details = formatInsight env fo i
              in (Returned (Result (Details details)), cacheFunctionResult st1 fo key details))
         | Some (InheritedProperty name) \<Rightarrow>
             (case formatInsight_inherited env fo name of
                Inl err \<Rightarrow> (Thrown err, st1)
              | Inr formatted \<Rightarrow>
                  (Returned (Result (Details formatted)),
                   cacheFunctionResult st1 fo key formatted)))"

definition getEventByKey ::
  "Env \<Rightarrow> Focus \<Rightarrow> string \<Rightarrow> PerformanceAgent \<Rightarrow> HandlerOutcome \<times> PerformanceAgent" where
  "getEventByKey env fo eventKey st =
     (let st1 = debugLog st ''Function call: getEventByKey'' [eventKey]
      in case lookupEvent env (data fo) eventKey of
           Inl err \<Rightarrow> (Thrown err, st1)
         | Inr None \<Rightarrow> (Returned (Error ''Invalid eventKey''), st1)
         | Inr (Some e) \<Rightarrow>
             (let details = JSON_stringify env e;
                  key = ''getEventByKey('' @ [CHR 0x27] @ eventKey @ [CHR 0x27] @ '')''
              in (Returned (Result (Details details)), cacheFunctionResult st1 fo key details)))"

definition getMainThreadTrackSummary ::
  "Env \<Rightarrow> Focus \<Rightarrow> int \<Rightarrow> int \<Rightarrow> PerformanceAgent \<Rightarrow> HandlerOutcome \<times> PerformanceAgent" where
  \<comment> \<open>the recording of the response size in a histogram, which has no part in the
      result, is left out\<close>
  "getMainThreadTrackSummary env fo min' max' st =
     (let st1 = debugLog st ''Function call: getMainThreadTrackSummary'' []
      in case formatter st1 of
           None \<Rightarrow> (Thrown ''Error: missing formatter'', st1)
         | Some fm \<Rightarrow>
             (case createBounds (parsedTrace (data fo)) min' max' of
                None \<Rightarrow> (Returned (Error ''invalid bounds''), st1)
              | Some bounds \<Rightarrow>
                  (let summary = formatMainThreadTrackSummary env fm bounds
                   in if isFunctionResponseTooLarge summary
                      then (Returned (Error ''getMainThreadTrackSummary response is too large. Try investigating using other functions, or a more narrow bounds''), st1)
                      else (let key = ''getMainThreadTrackSummary({min: '' @ showInt (minMicro bounds)
                                        @ '', max: '' @ showInt (maxMicro bounds) @ ''})''
                            in (Returned (Result (Summary summary)),
                                cacheFunctionResult st1 fo key summary)))))"

definition getNetworkTrackSummary ::
  "Env \<Rightarrow> Focus \<Rightarrow> int \<Rightarrow> int \<Rightarrow> PerformanceAgent \<Rightarrow> HandlerOutcome \<times> PerformanceAgent" where
  \<comment> \<open>the recording of the response size in a histogram, which has no part in the
      result, is left out\<close>
  "getNetworkTrackSummary env fo min' max' st =
     (let st1 = debugLog st ''Function call: getNetworkTrackSummary'' []
      in case formatter st1 of
           None \<Rightarrow> (Thrown ''Error: missing formatter'', st1)
         | Some fm \<Rightarrow>
             (case createBounds (parsedTrace (data fo)) min' max' of
                None \<Rightarrow> (Returned (Error ''invalid bounds''), st1)
              | Some bounds \<Rightarrow>
                  (let summary = formatNetworkTrackSummary env fm bounds
                   in if isFunctionResponseTooLarge summary
                      then (Returned (Error ''getNetworkTrackSummary response is too large. Try investigating using other functions, or a more narrow bounds''), st1)
                      else (let key = ''getNetworkTrackSummary({min: '' @ showInt (minMicro bounds)
                                        @ '', max: '' @ showInt (maxMicro bounds) @ ''})''
                            in (Returned (Result (Summary summary)),
                                cacheFunctionResult st1 fo key summary)))))"

definition getDetailedCallTree ::
  "Env \<Rightarrow> Focus \<Rightarrow> string \<Rightarrow> PerformanceAgent \<Rightarrow> HandlerOutcome \<times> PerformanceAgent" where
  "getDetailedCallTree env fo eventKey st =
     (let st1 = debugLog st ''Function call: getDetailedCallTree'' []
      in case formatter st1 of
           None \<Rightarrow> (Thrown ''Error: missing formatter'', st1)
         | Some fm \<Rightarrow>
             (case lookupEvent env (data fo) eventKey of
                Inl err \<Rightarrow> (Thrown err, st1)
              | Inr None \<Rightarrow> (Returned (Error ''Invalid eventKey''), st1)
              | Inr (Some e) \<Rightarrow>
                  (let callTree = (case AICallTree_fromEvent env e (parsedTrace (data fo)) of
                                     Some tree \<Rightarrow> formatCallTree env fm tree
                                   | None \<Rightarrow> ''No call tree found'');
                       key = ''getDetailedCallTree('' @ eventKey @ '')''
                   in (Returned (Result (CallTreeText callTree)),
                       cacheFunctionResult st1 fo key callTree))))"

definition getResourceContent ::
  "Env \<Rightarrow> Focus \<Rightarrow> string \<Rightarrow> PerformanceAgent \<Rightarrow> HandlerOutcome \<times> PerformanceAgent" where
  "getResourceContent env fo url st =
     (let st1 = debugLog st ''Function call: getResourceContent'' []
      in case resourceContent env url of
           ResourceNotFound \<Rightarrow> (Returned (Error ''Resource not found''), st1)
         | ContentError e \<Rightarrow> (Returned (Error (''Could not get resource content: '' @ e)), st1)
         | ContentText t \<Rightarrow>
             (let key = ''getResourceContent('' @ url @ '')''
              in (Returned (Result (Content t)), cacheFunctionResult st1 fo key t)))"

definition selectEventByKey ::
  "Env \<Rightarrow> Focus \<Rightarrow> string \<Rightarrow> PerformanceAgent \<Rightarrow> HandlerOutcome \<times> PerformanceAgent" where
  "selectEventByKey env fo eventKey st =
     (let st1 = debugLog st ''Function call: selectEventByKey'' [eventKey]
      in case lookupEvent env (data fo) eventKey of
           Inl err \<Rightarrow> (Thrown err, st1)
         | Inr None \<Rightarrow> (Returned (Error ''Invalid eventKey''), st1)
         | Inr (Some e) \<Rightarrow>
             (Returned (Result (Success True)), st1\<lparr>revealed := revealed st1 @ [e]\<rparr>))"

text \<open>A function call as the model requests it: the function's name with its arguments.\<close>

datatype FunctionCall =
  Call_getInsightDetails string
| Call_getEventByKey string
| Call_getMainThreadTrackSummary int int
| Call_getNetworkTrackSummary int int
| Call_getDetailedCallTree string
| Call_getResourceContent string
| Call_selectEventByKey string

fun functionName :: "FunctionCall \<Rightarrow> string" where
  "functionName (Call_getInsightDetails _) = ''getInsightDetails''"
| "functionName (Call_getEventByKey _) = ''getEventByKey''"
| "functionName (Call_getMainThreadTrackSummary _ _) = ''getMainThreadTrackSummary''"
| "functionName (Call_getNetworkTrackSummary _ _) = ''getNetworkTrackSummary''"
| "functionName (Call_getDetailedCallTree _) = ''getDetailedCallTree''"
| "functionName (Call_getResourceContent _) = ''getResourceContent''"
| "functionName (Call_selectEventByKey _) = ''selectEventByKey''"

fun handler ::
  "Env \<Rightarrow> Focus \<Rightarrow> FunctionCall \<Rightarrow> PerformanceAgent \<Rightarrow> HandlerOutcome \<times> PerformanceAgent" where
  \<comment> \<open>the handler that \<open>#declareFunctions\<close> declares under the call's name, closed over
      the focus \<open>fo\<close>, applied to the call's arguments\<close>
  "handler env fo (Call_getInsightDetails insightName) st = getInsightDetails env fo insightName st"
| "handler env fo (Call_getEventByKey eventKey) st = getEventByKey env fo eventKey st"
| "handler env fo (Call_getMainThreadTrackSummary min' max') st =
     getMainThreadTrackSummary env fo min' max' st"
| "handler env fo (Call_getNetworkTrackSummary min' max') st =
     getNetworkTrackSummary env fo min' max' st"
| "handler env fo (Call_getDetailedCallTree eventKey) st = getDetailedCallTree env fo eventKey st"
| "handler env fo (Call_getResourceContent url) st = getResourceContent env fo url st"
| "handler env fo (Call_selectEventByKey eventKey) st = selectEventByKey env fo eventKey st"

definition declareFunctions ::
  "Env \<Rightarrow> PerformanceAgent \<Rightarrow> PerformanceTraceContext \<Rightarrow> PerformanceAgent" where
  "declareFunctions env st ctx =
     (let pt = parsedTrace (data (focus ctx));
          st1 = declareFunction st ''getInsightDetails'' ctx;
          st2 = declareFunction st1 ''getEventByKey'' ctx;
          st3 = declareFunction st2 ''getMainThreadTrackSummary'' ctx;
          st4 = declareFunction st3 ''getNetworkTrackSummary'' ctx;
          st5 = declareFunction st4 ''getDetailedCallTree'' ctx;
          isFresh = recordingIsFresh env pt;
          hasScriptContents = (enhancedTraceVersion pt \<and> scripts_someContent pt);
          st6 = (if isFresh \<or> hasScriptContents
                 then declareFunction st5 ''getResourceContent'' ctx else st5)
      in if \<not> external ctx then declareFunction st6 ''selectEventByKey'' ctx else st6)"

subsection \<open>enhanceQuery\<close>

definition enhanceQuery ::
  "Env \<Rightarrow> PerformanceAgent \<Rightarrow> string \<Rightarrow> PerformanceTraceContext option \<Rightarrow> string \<times> PerformanceAgent" where
  "enhanceQuery env st query ctx =
     (case ctx of
        None \<Rightarrow> (query, clearDeclaredFunctions st)
      | Some c \<Rightarrow>
          (let st1 = declareFunctions env (clearDeclaredFunctions st) c;
               fo = focus c;
               (selected1, st2) =
                 (case callTree (data fo) of
                    None \<Rightarrow> ([], st1)
                  | Some ct \<Rightarrow>
                      if callTreeRef ct \<notin> callTreeContextSet st1
                      then (let contextString = serialize env ct;
                                st' = st1\<lparr>callTreeContextSet := insert (callTreeRef ct) (callTreeContextSet st1)\<rparr>
                            in (if contextString \<noteq> []
                                then [''User selected the following call tree:\<newline>\<newline>''
                                        @ contextString @ ''\<newline>\<newline>'']
                                else [],
                                st'))
                      else ([], st1));
               (selected2, st3) =
                 (case insight (data fo) of
                    None \<Rightarrow> (selected1, st2)
                  | Some i \<Rightarrow>
                      (let includeInsightInfo =
                             (case lastInsightForEnhancedQuery st2 of
                                None \<Rightarrow> True
                              | Some l \<Rightarrow> insightRef i \<noteq> insightRef l);
                           st' = st2\<lparr>lastInsightForEnhancedQuery := Some i\<rparr>
                       in (if includeInsightInfo
                           then selected1 @ [''User selected the '' @ insightKey i @ '' insight.\<newline>\<newline>'']
                           else selected1,
                           st')))
           in if selected2 = [] then (query, st3)
              else (concat (selected2 @ [''# User query\<newline>\<newline>'' @ query]), st3)))"

subsection \<open>The response parser\<close>

text \<open>
  \<open>urlRegex\<close> is \<open>/(\[(.*?)\]\((.*?)\))|(https?:\/\/[^\s<>()]+)/g\<close>. The matcher below
  follows the backtracking of the regular expression at one start position: the first
  alternative with its two lazy groups, then the second with its greedy class.
\<close>

definition isLineTerminator :: "char \<Rightarrow> bool" where
  \<comment> \<open>what \<open>.\<close> does not match, among the code units 0 to 255: LF and CR\<close>
  "isLineTerminator c = (c = CHR 0x0A \<or> c = CHR 0x0D)"

fun lazyDest :: "string \<Rightarrow> (string \<times> string) option" where
  \<comment> \<open>\<open>(.*?)\)\<close>: the shortest run of \<open>.\<close> that a closing parenthesis follows; the
      result is the run and the input after the parenthesis\<close>
  "lazyDest [] = None"
| "lazyDest (c # cs) =
     (if c = CHR '')'' then Some ([], cs)
      else if isLineTerminator c then None
      else map_option (\<lambda>(d, r). (c # d, r)) (lazyDest cs))"

fun lazyText :: "string \<Rightarrow> (string \<times> string \<times> string) option" where
  \<comment> \<open>\<open>(.*?)\]\((.*?)\)\<close>: at each length of the first group, shortest first, the rest of
      the alternative is tried; the result is the two groups and the input after the match\<close>
  "lazyText [] = None"
| "lazyText (c # cs) =
     (case (if startsWith (c # cs) '']('' then lazyDest (drop 2 (c # cs)) else None) of
        Some (d, r) \<Rightarrow> Some ([], d, r)
      | None \<Rightarrow>
          if isLineTerminator c then None
          else map_option (\<lambda>(t, d, r). (c # t, d, r)) (lazyText cs))"

definition matchMarkdownLink :: "string \<Rightarrow> (string \<times> string \<times> string) option" where
  \<comment> \<open>the first alternative at the start of the input: link text, link destination, and
      the input after the match\<close>
  "matchMarkdownLink s = (case s of [] \<Rightarrow> None | c # cs \<Rightarrow> if c = CHR ''['' then lazyText cs else None)"

definition isUrlChar :: "char \<Rightarrow> bool" where
  \<comment> \<open>\<open>[^\s<>()]\<close>\<close>
  "isUrlChar c =
     (\<not> isWhiteSpace c \<and> c \<noteq> CHR ''<'' \<and> c \<noteq> CHR ''>'' \<and> c \<noteq> CHR ''('' \<and> c \<noteq> CHR '')'')"

definition matchStandaloneUrl :: "string \<Rightarrow> (string \<times> string) option" where
  \<comment> \<open>the second alternative at the start of the input: the URL and the input after it\<close>
  "matchStandaloneUrl s =
     (let scheme = (if startsWith s ''https://'' then Some ''https://''
                    else if startsWith s ''http://'' then Some ''http://'' else None)
      in case scheme of
           None \<Rightarrow> None
         | Some p \<Rightarrow>
             (let rest = drop (length p) s
              in if takeWhile isUrlChar rest = [] then None
                 else Some (p @ takeWhile isUrlChar rest, dropWhile isUrlChar rest)))"

datatype UrlMatch =
  MarkdownLink string string  \<comment> \<open>groups 2 and 3: link text and link destination\<close>
| StandaloneUrl string  \<comment> \<open>group 4\<close>

fun matchText :: "UrlMatch \<Rightarrow> string" where
  \<comment> \<open>the matched text, \<open>match\<close> in the callback\<close>
  "matchText (MarkdownLink linkText linkDest) = ''['' @ linkText @ '']('' @ linkDest @ '')''"
| "matchText (StandaloneUrl url) = url"

definition urlRegex_exec :: "string \<Rightarrow> (UrlMatch \<times> string) option" where
  \<comment> \<open>a match of \<open>urlRegex\<close> that starts at the start of the input, with the input after it\<close>
  "urlRegex_exec s =
     (case matchMarkdownLink s of
        Some (t, d, r) \<Rightarrow> Some (MarkdownLink t d, r)
      | None \<Rightarrow>
          (case matchStandaloneUrl s of
             Some (u, r) \<Rightarrow> Some (StandaloneUrl u, r)
           | None \<Rightarrow> None))"

datatype Segment =
  Unmatched char  \<comment> \<open>a character that no match covers\<close>
| Matched UrlMatch

fun segmentText :: "Segment \<Rightarrow> string" where
  "segmentText (Unmatched c) = [c]"
| "segmentText (Matched m) = matchText m"

lemma lazyDest_shorter: "lazyDest s = Some (d, r) \<Longrightarrow> length r < length s"
  by (induction s arbitrary: d r) (auto split: if_splits)

lemma lazyText_shorter: "lazyText s = Some (t, d, r) \<Longrightarrow> length r < length s"
proof (induction s arbitrary: t d r)
  case Nil
  then show ?case by simp
next
  case (Cons c cs)
  show ?case
  proof (cases "if startsWith (c # cs) '']('' then lazyDest (drop 2 (c # cs)) else None")
    case None
    with Cons.prems obtain t' where "lazyText cs = Some (t', d, r)"
      by (auto split: if_splits)
    from Cons.IH [OF this] show ?thesis by simp
  next
    case (Some p)
    obtain d' r' where p: "p = (d', r')" by (cases p)
    from Some p have "lazyDest (drop 2 (c # cs)) = Some (d', r')"
      by (simp split: if_splits)
    from lazyDest_shorter [OF this] have "length r' < length (c # cs)"
      by simp
    moreover from Cons.prems Some p have "r = r'" by simp
    ultimately show ?thesis by simp
  qed
qed

lemma dropWhile_after_prefix_shorter:
  assumes "startsWith s p" and "p \<noteq> []"
  shows "length (dropWhile P (drop (length p) s)) < length s"
proof -
  from assms have "length p \<le> length s" "0 < length p"
    by (auto simp: startsWith_def) (metis length_take min.cobounded1)
  moreover have "length (dropWhile P (drop (length p) s)) \<le> length (drop (length p) s)"
    by (rule length_dropWhile_le)
  moreover have "length (drop (length p) s) = length s - length p"
    by simp
  ultimately show ?thesis by arith
qed

lemma matchStandaloneUrl_shorter: "matchStandaloneUrl s = Some (u, r) \<Longrightarrow> length r < length s"
  unfolding matchStandaloneUrl_def Let_def
  by (auto split: if_splits
           intro: dropWhile_after_prefix_shorter [of s "''https://''", simplified]
                  dropWhile_after_prefix_shorter [of s "''http://''", simplified])

lemma urlRegex_exec_shorter: "urlRegex_exec s = Some (m, r) \<Longrightarrow> length r < length s"
  by (auto simp: urlRegex_exec_def matchMarkdownLink_def
           split: option.splits list.splits if_splits
           dest: lazyText_shorter matchStandaloneUrl_shorter)

function urlRegex_segments :: "string \<Rightarrow> Segment list" where
  \<comment> \<open>the successive matches of the global regular expression, left to right, each search
      starting where the match before ended, with the characters between the matches\<close>
  "urlRegex_segments [] = []"
| "urlRegex_segments (c # cs) =
     (case urlRegex_exec (c # cs) of
        Some (m, r) \<Rightarrow> Matched m # urlRegex_segments r
      | None \<Rightarrow> Unmatched c # urlRegex_segments cs)"
  by pat_completeness auto
termination
  by (relation "measure length") (auto dest: urlRegex_exec_shorter)

definition replace_urlRegex :: "string \<Rightarrow> (UrlMatch \<Rightarrow> string) \<Rightarrow> string" where
  \<comment> \<open>\<open>response.replace(urlRegex, callback)\<close>: every match is replaced by what the callback
      returns for it, the rest is kept\<close>
  "replace_urlRegex response callback =
     concat (map (\<lambda>seg. case seg of Unmatched c \<Rightarrow> [c] | Matched m \<Rightarrow> callback m)
                 (urlRegex_segments response))"

definition knownUrlCallback :: "Env \<Rightarrow> Focus \<Rightarrow> UrlMatch \<Rightarrow> string" where
  \<comment> \<open>the callback of \<open>#parseForKnownUrls\<close>\<close>
  "knownUrlCallback env fo m =
     (if (case m of MarkdownLink linkText linkDest \<Rightarrow> startsWith linkDest ''#'' | StandaloneUrl _ \<Rightarrow> False)
      then matchText m
      else let urlText = (case m of MarkdownLink linkText linkDest \<Rightarrow> linkDest
                                  | StandaloneUrl standaloneUrlText \<Rightarrow> standaloneUrlText)
           in if urlText = [] then matchText m
              else case find (\<lambda>request. args_data_url request = urlText)
                             (networkRequests_byTime (parsedTrace (data fo))) of
                     None \<Rightarrow> matchText m
                   | Some request \<Rightarrow>
                       (case keyForEvent env request of
                          None \<Rightarrow> matchText m
                        | Some eventKey \<Rightarrow>
                            if eventKey = [] then matchText m
                            else ''['' @ urlText @ ''](#'' @ eventKey @ '')''))"

definition parseForKnownUrls :: "Env \<Rightarrow> PerformanceAgent \<Rightarrow> string \<Rightarrow> string" where
  "parseForKnownUrls env st response =
     (case this_context st of
        None \<Rightarrow> response
      | Some ctx \<Rightarrow> replace_urlRegex response (knownUrlCallback env (focus ctx)))"

definition FIVE_BACKTICKS :: string where
  "FIVE_BACKTICKS = ''`````''"

definition parseTextResponse :: "Env \<Rightarrow> PerformanceAgent \<Rightarrow> string \<Rightarrow> string" where
  \<comment> \<open>the result is the text that is handed to \<open>super.parseTextResponse\<close>\<close>
  "parseTextResponse env st response0 =
     (let response = parseForKnownUrls env st response0;
          trimmed = trim response
      in if startsWith trimmed FIVE_BACKTICKS \<and> endsWith trimmed FIVE_BACKTICKS
         then slice trimmed (int (length FIVE_BACKTICKS)) (- int (length FIVE_BACKTICKS))
         else response)"

subsection \<open>A conversation\<close>

text \<open>
  What happens to an agent in the course of one conversation is a sequence of these
  operations, each on the state the one before left.
\<close>

datatype AgentOp =
  Op_run "PerformanceTraceContext option"
| Op_handleContextDetails "PerformanceTraceContext option"
| Op_enhanceQuery string "PerformanceTraceContext option"
| Op_handler Focus FunctionCall

fun step :: "Env \<Rightarrow> PerformanceAgent \<Rightarrow> AgentOp \<Rightarrow> PerformanceAgent" where
  "step env st (Op_run selected) = run env st selected"
| "step env st (Op_handleContextDetails ctx) = snd (handleContextDetails env st ctx)"
| "step env st (Op_enhanceQuery query ctx) = snd (enhanceQuery env st query ctx)"
| "step env st (Op_handler fo call) = snd (handler env fo call st)"

definition steps :: "Env \<Rightarrow> PerformanceAgent \<Rightarrow> AgentOp list \<Rightarrow> PerformanceAgent" where
  "steps env st ops = foldl (step env) st ops"

section \<open>Example objects\<close>

text \<open>
  A small trace with two network requests, a main-thread task that has a call tree, an
  event with a long JSON form, one insight, and two focus objects on it; and an environment
  whose serializer knows the keys \<open>s-1\<close>, \<open>r-2\<close> and \<open>r-3\<close>, fails on \<open>l-99\<close> with
  an error of its own and reports every other key as unknown. The recording is fresh, so
  that all seven functions are declared, and one resource has content.
\<close>

definition ex_request :: TraceEvent where
  "ex_request = \<lparr>eventRef = 1, args_data_url = ''https://a.com/x.js''\<rparr>"

definition ex_task :: TraceEvent where
  "ex_task = \<lparr>eventRef = 2, args_data_url = []\<rparr>"

definition ex_bigEvent :: TraceEvent where
  "ex_bigEvent = \<lparr>eventRef = 3, args_data_url = []\<rparr>"

definition ex_unkeyedRequest :: TraceEvent where
  "ex_unkeyedRequest = \<lparr>eventRef = 4, args_data_url = ''https://a.com/y.js''\<rparr>"

definition ex_insight :: InsightModel where
  "ex_insight = \<lparr>insightRef = 1, insightKey = ''LCPBreakdown''\<rparr>"

definition ex_insightSet :: InsightSet where
  "ex_insightSet = \<lparr>navigation = True, model = [(''LCPBreakdown'', ex_insight)]\<rparr>"

definition ex_trace :: ParsedTrace where
  "ex_trace =
     \<lparr>insights = Some [ex_insightSet], traceBounds = \<lparr>minMicro = 100, maxMicro = 200\<rparr>,
      networkRequests_byTime = [ex_request, ex_unkeyedRequest],
      enhancedTraceVersion = False, scripts_someContent = False\<rparr>"

definition ex_callTree :: AICallTree where
  "ex_callTree = \<lparr>callTreeRef = 1, callTree_parsedTrace = ex_trace\<rparr>"

definition ex_focusA :: Focus where
  "ex_focusA =
     \<lparr>focusRef = 1,
      data = \<lparr>parsedTrace = ex_trace, event = None, callTree = Some ex_callTree, insight = None\<rparr>,
      insightSet = Some ex_insightSet\<rparr>"

definition ex_focusB :: Focus where
  "ex_focusB =
     \<lparr>focusRef = 2,
      data = \<lparr>parsedTrace = ex_trace, event = None, callTree = None, insight = Some ex_insight\<rparr>,
      insightSet = Some ex_insightSet\<rparr>"

definition ex_contextA :: PerformanceTraceContext where
  "ex_contextA = \<lparr>focus = ex_focusA, external = False\<rparr>"

definition ex_contextB :: PerformanceTraceContext where
  "ex_contextB = \<lparr>focus = ex_focusB, external = False\<rparr>"

definition ex_bigText :: string where
  "ex_bigText = replicate 65537 (CHR ''x'')"

definition ex_env :: Env where
  "ex_env =
     \<lparr>eventForKey = (\<lambda>key pt.
        if key = ''s-1'' then Inr ex_request
        else if key = ''r-2'' then Inr ex_task
        else if key = ''r-3'' then Inr ex_bigEvent
        else if key = ''l-99'' then Inl ''Error: Could not find frame with index 99''
        else Inl (''Error: Unknown trace event serializable key: '' @ key)),
      keyForEvent = (\<lambda>e. if eventRef e = 1 then Some ''s-1'' else None),
      isSyntheticNetworkRequest = (\<lambda>e. eventRef e = 1 \<or> eventRef e = 4),
      AICallTree_fromEvent = (\<lambda>e pt. if eventRef e = 2 then Some ex_callTree else None),
      JSON_stringify = (\<lambda>e. if eventRef e = 3 then ex_bigText else ''{}''),
      serialize = (\<lambda>ct. ''1;main;500;100;;''),
      formatTraceSummary = (\<lambda>fo. if focusRef fo = 1 then ''summary A'' else ''summary B''),
      formatCriticalRequests = (\<lambda>fo. ''requests''),
      formatMainThreadBottomUpSummary = (\<lambda>fo. []),
      formatThirdPartySummary = (\<lambda>fo. []),
      formatLongestTasks = (\<lambda>fo. ''tasks''),
      formatMainThreadTrackSummary = (\<lambda>fo w. ''main thread''),
      formatNetworkTrackSummary = (\<lambda>fo w. if maxMicro w - minMicro w < 50 then ''network'' else ex_bigText),
      formatCallTree = (\<lambda>fo ct. ''tree''),
      formatInsight = (\<lambda>fo i. ''details of '' @ insightKey i),
      formatInsight_inherited = (\<lambda>fo name. Inr (''details of '' @ name)),
      networkDataFormatDescription = ''network format'',
      recordingIsFresh = (\<lambda>pt. True),
      resourceContent = (\<lambda>url. if url = ''https://a.com/x.js'' then ContentText ''let x = 1;''
                               else ResourceNotFound)\<rparr>"

definition ex_agentFocus :: AgentFocus where
  "ex_agentFocus = \<lparr>dataRef = 0, primaryInsightSet = Some ex_insightSet\<rparr>"

definition ex_store1 :: Store where
  "ex_store1 = [\<lparr>parsedTrace = ex_trace, event = None, callTree = Some ex_callTree, insight = None\<rparr>]"

definition ex_store2 :: Store where
  "ex_store2 = [\<lparr>parsedTrace = ex_trace, event = Some ex_request, callTree = None, insight = None\<rparr>]"

definition ex_turnA :: PerformanceAgent where
  "ex_turnA = run ex_env initialAgent (Some ex_contextA)"

definition ex_answering :: PerformanceAgent where
  "ex_answering = ex_turnA\<lparr>this_context := Some ex_contextA\<rparr>"

section \<open>Notions used in the statements\<close>

text \<open>
  What the theorems below say about the code is written with these; each is tied to the
  code's own definitions by a lemma.
\<close>

definition storeOk :: "Store \<Rightarrow> bool" where
  \<comment> \<open>every data object of the store holds at most one of event and call tree\<close>
  "storeOk store = (\<forall>d \<in> set store. atMostOne d)"

definition clampedWindow :: "ParsedTrace \<Rightarrow> int \<Rightarrow> int \<Rightarrow> TraceWindowMicro" where
  \<comment> \<open>the requested range, clamped to the trace bounds\<close>
  "clampedWindow pt mn mx =
     \<lparr>minMicro = max mn (minMicro (traceBounds pt)), maxMicro = min mx (maxMicro (traceBounds pt))\<rparr>"

definition rangesIntersect :: "ParsedTrace \<Rightarrow> int \<Rightarrow> int \<Rightarrow> bool" where
  \<comment> \<open>some time lies both in the requested range and in the trace bounds\<close>
  "rangesIntersect pt mn mx =
     (\<exists>t. mn \<le> t \<and> t \<le> mx \<and> minMicro (traceBounds pt) \<le> t \<and> t \<le> maxMicro (traceBounds pt))"

definition tooLargeError :: "string \<Rightarrow> FunctionResult" where
  \<comment> \<open>the error result of a track summary function for a summary that is too large\<close>
  "tooLargeError name =
     Error (name @ '' response is too large. Try investigating using other functions, or a more narrow bounds'')"

definition staticFacts :: "Env \<Rightarrow> PerformanceTraceContext \<Rightarrow> RequestFact list" where
  \<comment> \<open>the facts that do not depend on the trace\<close>
  "staticFacts env ctx =
     (if \<not> external ctx then [notExternalExtraPreambleFact] else [])
     @ [callFrameDataDescriptionFact, networkDataDescriptionFact env]"

definition criticalFact :: "string \<Rightarrow> RequestFact list" where
  \<comment> \<open>the fact for a summary text, none for an empty text\<close>
  "criticalFact text =
     (if text = [] then [] else [\<lparr>fact_text = text, source = ''devtools'', score = CRITICAL\<rparr>])"

definition summaryFacts :: "Env \<Rightarrow> Focus \<Rightarrow> RequestFact list" where
  \<comment> \<open>the summary facts that a formatter made with this focus gives\<close>
  "summaryFacts env fo =
     (if formatTraceSummary env fo = [] then []
      else [\<lparr>fact_text = ''Trace summary:\<newline>'' @ formatTraceSummary env fo,
             source = ''devtools'', score = REQUIRED\<rparr>])
     @ criticalFact (formatCriticalRequests env fo)
     @ criticalFact (formatMainThreadBottomUpSummary env fo)
     @ criticalFact (formatThirdPartySummary env fo)
     @ criticalFact (formatLongestTasks env fo)"

definition cachedFunctionCallFacts :: "PerformanceAgent \<Rightarrow> Focus \<Rightarrow> RequestFact list" where
  \<comment> \<open>the facts in the function-call cache of this focus, in the order of the record\<close>
  "cachedFunctionCallFacts st fo =
     (case functionCallCacheForFocus st (focusRef fo) of None \<Rightarrow> [] | Some c \<Rightarrow> map snd c)"

fun payloadLength :: "ResultPayload \<Rightarrow> nat" where
  \<comment> \<open>the size of a result: the length of its text\<close>
  "payloadLength (Details s) = length s"
| "payloadLength (Summary s) = length s"
| "payloadLength (CallTreeText s) = length s"
| "payloadLength (Content s) = length s"
| "payloadLength (Success b) = 0"







definition declaredNames :: "Env \<Rightarrow> PerformanceTraceContext \<Rightarrow> string list" where
  \<comment> \<open>the names that \<open>#declareFunctions\<close> declares, in order\<close>
  "declaredNames env ctx =
     [''getInsightDetails'', ''getEventByKey'', ''getMainThreadTrackSummary'',
      ''getNetworkTrackSummary'', ''getDetailedCallTree'']
     @ (if recordingIsFresh env (parsedTrace (data (focus ctx))) \<or>
           (enhancedTraceVersion (parsedTrace (data (focus ctx))) \<and>
            scripts_someContent (parsedTrace (data (focus ctx))))
        then [''getResourceContent''] else [])
     @ (if \<not> external ctx then [''selectEventByKey''] else [])"

definition callTreeSection :: "Env \<Rightarrow> PerformanceAgent \<Rightarrow> Focus \<Rightarrow> string list" where
  \<comment> \<open>the part of the enhanced query on the call tree, if any\<close>
  "callTreeSection env st fo =
     (case callTree (data fo) of
        None \<Rightarrow> []
      | Some ct \<Rightarrow>
          if callTreeRef ct \<in> callTreeContextSet st \<or> serialize env ct = [] then []
          else [''User selected the following call tree:\<newline>\<newline>'' @ serialize env ct @ ''\<newline>\<newline>''])"

definition insightSection :: "PerformanceAgent \<Rightarrow> Focus \<Rightarrow> string list" where
  \<comment> \<open>the part of the enhanced query on the insight, if any\<close>
  "insightSection st fo =
     (case insight (data fo) of
        None \<Rightarrow> []
      | Some i \<Rightarrow>
          if (case lastInsightForEnhancedQuery st of None \<Rightarrow> True | Some l \<Rightarrow> insightRef i \<noteq> insightRef l)
          then [''User selected the '' @ insightKey i @ '' insight.\<newline>\<newline>'']
          else [])"

fun showsContext :: "AgentOp \<Rightarrow> bool" where
  \<comment> \<open>the operation is \<open>handleContextDetails\<close> with a context\<close>
  "showsContext (Op_handleContextDetails (Some _)) = True"
| "showsContext _ = False"

definition contextResponse :: "Env \<Rightarrow> PerformanceAgent \<Rightarrow> ContextResponse" where
  \<comment> \<open>the CONTEXT response that \<open>handleContextDetails\<close> yields\<close>
  "contextResponse env st =
     \<lparr>title = ''Analyzing trace'',
      details = [(''Trace'', (case formatter st of None \<Rightarrow> [] | Some fm \<Rightarrow> formatTraceSummary env fm))]\<rparr>"

fun queriesCallTree :: "nat \<Rightarrow> AgentOp \<Rightarrow> bool" where
  \<comment> \<open>the operation is \<open>enhanceQuery\<close> for a context whose call tree has this reference\<close>
  "queriesCallTree r (Op_enhanceQuery q (Some c)) =
     (case callTree (data (focus c)) of None \<Rightarrow> False | Some ct \<Rightarrow> callTreeRef ct = r)"
| "queriesCallTree r _ = False"

definition withoutCallTree :: "PerformanceTraceContext \<Rightarrow> PerformanceTraceContext" where
  \<comment> \<open>the same context, its focus holding no call tree\<close>
  "withoutCallTree c = c\<lparr>focus := (focus c)\<lparr>data := (data (focus c))\<lparr>callTree := None\<rparr>\<rparr>\<rparr>"

fun matchUrl :: "UrlMatch \<Rightarrow> string" where
  \<comment> \<open>\<open>urlText\<close> in the callback: the link destination, or the bare URL\<close>
  "matchUrl (MarkdownLink linkText linkDest) = linkDest"
| "matchUrl (StandaloneUrl url) = url"

fun isInternalLink :: "UrlMatch \<Rightarrow> bool" where
  \<comment> \<open>a markdown link whose destination starts with \<open>#\<close>\<close>
  "isInternalLink (MarkdownLink linkText linkDest) = startsWith linkDest ''#''"
| "isInternalLink (StandaloneUrl url) = False"

section \<open>AgentFocus holds at most one of event and call tree (C9)\<close>

lemma getCallTreeOrEvent_atMostOne:
  "fst (getCallTreeOrEvent env pt ev) = None \<or> snd (getCallTreeOrEvent env pt ev) = None"
  by (auto simp: getCallTreeOrEvent_def split: option.splits)

lemma new_data_ok:
  assumes "new_data store d = Inr (f, store')" and "storeOk store" and "atMostOne d"
  shows "storeOk store' \<and> dataRef f < length store' \<and> length store \<le> length store'"
  using assms
  by (auto simp: new_data_def new_AgentFocus_def storeOk_def split: sum.splits option.splits if_splits)

lemma fromParsedTrace_ok:
  "fromParsedTrace store pt = Inr (f, store') \<Longrightarrow> storeOk store \<Longrightarrow>
   storeOk store' \<and> dataRef f < length store' \<and> length store \<le> length store'"
  by (auto simp: fromParsedTrace_def atMostOne_def split: if_splits dest!: new_data_ok)

lemma fromInsight_ok:
  "fromInsight store pt i = Inr (f, store') \<Longrightarrow> storeOk store \<Longrightarrow>
   storeOk store' \<and> dataRef f < length store' \<and> length store \<le> length store'"
  by (auto simp: fromInsight_def atMostOne_def split: if_splits dest!: new_data_ok)

lemma fromCallTree_ok:
  "fromCallTree store ct = Inr (f, store') \<Longrightarrow> storeOk store \<Longrightarrow>
   storeOk store' \<and> dataRef f < length store' \<and> length store \<le> length store'"
  by (auto simp: fromCallTree_def atMostOne_def dest!: new_data_ok)

lemma fromEvent_ok:
  assumes "fromEvent env store pt e = Inr (f, store')" and "storeOk store"
  shows "storeOk store' \<and> dataRef f < length store' \<and> length store \<le> length store'"
proof -
  let ?r = "getCallTreeOrEvent env pt (Some e)"
  from assms(1) have nd:
    "new_data store \<lparr>parsedTrace = pt, event = snd ?r, callTree = fst ?r, insight = None\<rparr> = Inr (f, store')"
    by (simp add: fromEvent_def Let_def split: if_splits)
  have "atMostOne \<lparr>parsedTrace = pt, event = snd ?r, callTree = fst ?r, insight = None\<rparr>"
    using getCallTreeOrEvent_atMostOne [of env pt "Some e"] by (auto simp: atMostOne_def)
  from new_data_ok [OF nd assms(2) this] show ?thesis .
qed

lemma storeOk_update:
  "storeOk store \<Longrightarrow> atMostOne d \<Longrightarrow> storeOk (store[r := d])"
  unfolding storeOk_def by (metis insertE set_update_subset_insert subsetD)

lemma withInsight_ok:
  assumes "withInsight store this i = Inr (f, store')" and "storeOk store"
  shows "storeOk store' \<and> dataRef f < length store' \<and> length store \<le> length store'"
proof -
  from assms(1) have r: "dataRef this < length store" "dataRef f = dataRef this"
    and s: "store' = store[dataRef this := (store ! dataRef this)\<lparr>insight := i\<rparr>]"
    by (auto simp: withInsight_def new_AgentFocus_def split: sum.splits if_splits option.splits)
  from r(1) assms(2) have "atMostOne (store ! dataRef this)"
    by (simp add: storeOk_def)
  then have "atMostOne ((store ! dataRef this)\<lparr>insight := i\<rparr>)"
    by (simp add: atMostOne_def)
  with assms(2) s r show ?thesis by (simp add: storeOk_update)
qed

lemma withEvent_ok:
  assumes "withEvent env store this ev = Inr (f, store')" and "storeOk store"
  shows "storeOk store' \<and> dataRef f < length store' \<and> length store \<le> length store'"
proof -
  let ?r = "getCallTreeOrEvent env (parsedTrace (store ! dataRef this)) ev"
  from assms(1) have r: "dataRef this < length store" "dataRef f = dataRef this"
    and s: "store' = store[dataRef this := (store ! dataRef this)\<lparr>callTree := fst ?r, event := snd ?r\<rparr>]"
    by (auto simp: withEvent_def new_AgentFocus_def Let_def split: sum.splits if_splits option.splits)
  have "atMostOne ((store ! dataRef this)\<lparr>callTree := fst ?r, event := snd ?r\<rparr>)"
    using getCallTreeOrEvent_atMostOne [of env "parsedTrace (store ! dataRef this)" ev]
    by (auto simp: atMostOne_def)
  with assms(2) s r show ?thesis by (simp add: storeOk_update)
qed

lemma produced_ok:
  "produced env store fs \<Longrightarrow> storeOk store \<and> (\<forall>f \<in> set fs. dataRef f < length store)"
proof (induction rule: produced.induct)
  case p_none
  show ?case by (simp add: storeOk_def)
next
  case (p_fromParsedTrace store fs pt f store')
  with fromParsedTrace_ok [of store pt f store'] show ?case by fastforce
next
  case (p_fromInsight store fs pt i f store')
  with fromInsight_ok [of store pt i f store'] show ?case by fastforce
next
  case (p_fromEvent store fs pt e f store')
  with fromEvent_ok [of env store pt e f store'] show ?case by fastforce
next
  case (p_fromCallTree store fs ct f store')
  with fromCallTree_ok [of store ct f store'] show ?case by fastforce
next
  case (p_withInsight store fs this io f store')
  with withInsight_ok [of store this io f store'] show ?case by fastforce
next
  case (p_withEvent store fs this eo f store')
  with withEvent_ok [of env store this eo f store'] show ?case by fastforce
qed

text \<open>
  Claim C9. Every AgentFocus produced by \<open>fromParsedTrace\<close>, \<open>fromInsight\<close>,
  \<open>fromEvent\<close>, \<open>fromCallTree\<close>, \<open>withInsight\<close> or \<open>withEvent\<close> (the last two
  applied to a focus produced before) holds data of which at most one of \<open>event\<close> and
  \<open>callTree\<close> is non-null. Since a derived focus shares its data object with the focus it
  comes from, this is shown for every focus produced so far, on the store as the last
  operation left it.
\<close>

theorem AgentFocus_at_most_one_of_event_and_callTree:
  assumes "produced env store fs" and "f \<in> set fs"
  shows "dataRef f < length store \<and> atMostOne (store ! dataRef f)"
  using produced_ok [OF assms(1)] assms(2) by (auto simp: storeOk_def)

text \<open>
  The example: \<open>fromEvent\<close> on the task gives a focus on its call tree; \<open>withEvent\<close> on
  that focus with the network request gives a second focus on the same data object, which
  now holds the request and no call tree.
\<close>

theorem AgentFocus_at_most_one_witness:
  "produced ex_env ex_store2 [ex_agentFocus, ex_agentFocus] \<and>
   ex_agentFocus \<in> set [ex_agentFocus, ex_agentFocus] \<and>
   dataRef ex_agentFocus < length ex_store2 \<and>
   atMostOne (ex_store2 ! dataRef ex_agentFocus)"
proof -
  have 1: "fromEvent ex_env [] ex_trace ex_task = Inr (ex_agentFocus, ex_store1)"
    by (simp add: fromEvent_def getCallTreeOrEvent_def new_data_def new_AgentFocus_def
        getPrimaryInsightSet_def ex_env_def ex_task_def ex_trace_def ex_agentFocus_def
        ex_store1_def)
  have 2: "withEvent ex_env ex_store1 ex_agentFocus (Some ex_request) = Inr (ex_agentFocus, ex_store2)"
    by (simp add: withEvent_def getCallTreeOrEvent_def new_AgentFocus_def
        getPrimaryInsightSet_def ex_env_def ex_request_def ex_trace_def ex_agentFocus_def
        ex_store1_def ex_store2_def)
  have p1: "produced ex_env ex_store1 [ex_agentFocus]"
    by (rule p_fromEvent [OF p_none 1])
  have p2: "produced ex_env ex_store2 [ex_agentFocus, ex_agentFocus]"
    by (rule p_withEvent [OF p1 _ 2]) simp
  have m: "ex_agentFocus \<in> set [ex_agentFocus, ex_agentFocus]"
    by simp
  from AgentFocus_at_most_one_of_event_and_callTree [OF p2 m] p2 m show ?thesis
    by simp
qed

section \<open>The track summary functions: bounds and size (C10, C2)\<close>

lemma createBounds_None_iff:
  "(createBounds pt mn mx = None) =
   (mx < mn \<or> \<not> (\<exists>t. mn \<le> t \<and> t \<le> mx \<and>
                       minMicro (traceBounds pt) \<le> t \<and> t \<le> maxMicro (traceBounds pt)))"
proof -
  let ?a = "minMicro (traceBounds pt)" and ?b = "maxMicro (traceBounds pt)"
  have "(max mn ?a \<le> min mx ?b) = (\<exists>t. mn \<le> t \<and> t \<le> mx \<and> ?a \<le> t \<and> t \<le> ?b)"
  proof
    assume "max mn ?a \<le> min mx ?b"
    then have "mn \<le> max mn ?a \<and> max mn ?a \<le> mx \<and> ?a \<le> max mn ?a \<and> max mn ?a \<le> ?b"
      by simp
    then show "\<exists>t. mn \<le> t \<and> t \<le> mx \<and> ?a \<le> t \<and> t \<le> ?b" ..
  next
    assume "\<exists>t. mn \<le> t \<and> t \<le> mx \<and> ?a \<le> t \<and> t \<le> ?b"
    then show "max mn ?a \<le> min mx ?b" by auto
  qed
  then show ?thesis
    by (auto simp: createBounds_def Let_def)
qed

lemma createBounds_Some:
  "createBounds pt mn mx = Some w \<Longrightarrow>
   w = \<lparr>minMicro = max mn (minMicro (traceBounds pt)), maxMicro = min mx (maxMicro (traceBounds pt))\<rparr> \<and>
   minMicro w \<le> maxMicro w"
  by (auto simp: createBounds_def Let_def split: if_splits)

lemma getMainThreadTrackSummary_outcome:
  assumes "formatter st = Some fm"
  shows "fst (getMainThreadTrackSummary env fo mn mx st) =
     (if mx < mn \<or> \<not> rangesIntersect (parsedTrace (data fo)) mn mx
      then Returned (Error ''invalid bounds'')
      else let summary = formatMainThreadTrackSummary env fm (clampedWindow (parsedTrace (data fo)) mn mx)
           in if MAX_FUNCTION_RESULT_BYTE_LENGTH < length summary
              then Returned (tooLargeError ''getMainThreadTrackSummary'')
              else Returned (Result (Summary summary)))"
proof (cases "createBounds (parsedTrace (data fo)) mn mx")
  case None
  with assms show ?thesis
    using createBounds_None_iff [of "parsedTrace (data fo)" mn mx]
    by (simp add: getMainThreadTrackSummary_def debugLog_def rangesIntersect_def)
next
  case (Some w)
  with createBounds_None_iff [of "parsedTrace (data fo)" mn mx]
  have ok: "\<not> (mx < mn \<or> \<not> rangesIntersect (parsedTrace (data fo)) mn mx)"
    by (simp add: rangesIntersect_def)
  from createBounds_Some [OF Some] have "w = clampedWindow (parsedTrace (data fo)) mn mx"
    by (simp add: clampedWindow_def)
  with assms Some ok show ?thesis
    by (simp add: getMainThreadTrackSummary_def debugLog_def Let_def
        isFunctionResponseTooLarge_def tooLargeError_def)
qed

lemma getNetworkTrackSummary_outcome:
  assumes "formatter st = Some fm"
  shows "fst (getNetworkTrackSummary env fo mn mx st) =
     (if mx < mn \<or> \<not> rangesIntersect (parsedTrace (data fo)) mn mx
      then Returned (Error ''invalid bounds'')
      else let summary = formatNetworkTrackSummary env fm (clampedWindow (parsedTrace (data fo)) mn mx)
           in if MAX_FUNCTION_RESULT_BYTE_LENGTH < length summary
              then Returned (tooLargeError ''getNetworkTrackSummary'')
              else Returned (Result (Summary summary)))"
proof (cases "createBounds (parsedTrace (data fo)) mn mx")
  case None
  with assms show ?thesis
    using createBounds_None_iff [of "parsedTrace (data fo)" mn mx]
    by (simp add: getNetworkTrackSummary_def debugLog_def rangesIntersect_def)
next
  case (Some w)
  with createBounds_None_iff [of "parsedTrace (data fo)" mn mx]
  have ok: "\<not> (mx < mn \<or> \<not> rangesIntersect (parsedTrace (data fo)) mn mx)"
    by (simp add: rangesIntersect_def)
  from createBounds_Some [OF Some] have "w = clampedWindow (parsedTrace (data fo)) mn mx"
    by (simp add: clampedWindow_def)
  with assms Some ok show ?thesis
    by (simp add: getNetworkTrackSummary_def debugLog_def Let_def
        isFunctionResponseTooLarge_def tooLargeError_def)
qed

lemma clampedWindow_within:
  assumes "\<not> mx < mn" and "rangesIntersect pt mn mx"
  shows "minMicro (traceBounds pt) \<le> minMicro (clampedWindow pt mn mx) \<and>
         mn \<le> minMicro (clampedWindow pt mn mx) \<and>
         minMicro (clampedWindow pt mn mx) \<le> maxMicro (clampedWindow pt mn mx) \<and>
         maxMicro (clampedWindow pt mn mx) \<le> mx \<and>
         maxMicro (clampedWindow pt mn mx) \<le> maxMicro (traceBounds pt)"
  using assms by (auto simp: clampedWindow_def rangesIntersect_def)

lemma foldl_addFact: "foldl addFact st xs = st\<lparr>facts := facts st @ xs\<rparr>"
  by (induction xs arbitrary: st) (simp_all add: addFact_def)

lemma pushTraceFact_Some:
  "formatter st = Some fm \<Longrightarrow>
   pushTraceFact st format wrap sc =
     st\<lparr>traceFacts := traceFacts st @
          (if format fm = [] then []
           else [\<lparr>fact_text = wrap (format fm), source = ''devtools'', score = sc\<rparr>])\<rparr>"
  by (simp add: pushTraceFact_def Let_def)

lemma createTraceFacts_eq:
  "createTraceFacts env st fo =
     st\<lparr>formatter := Some fo, traceFacts := traceFacts st @ summaryFacts env fo\<rparr>"
  by (simp add: createTraceFacts_def createFactForTraceSummary_def
      createFactForCriticalRequests_def createFactForMainThreadBottomUpSummary_def
      createFactForThirdPartySummary_def createFactForLongestTasks_def
      pushTraceFact_Some summaryFacts_def criticalFact_def)

lemma addFacts_eq:
  "addFacts env st ctx =
     st\<lparr>formatter := (if traceFacts st = [] then Some (focus ctx) else formatter st),
        traceFacts := (if traceFacts st = [] then summaryFacts env (focus ctx) else traceFacts st),
        facts := facts st @ staticFacts env ctx
                 @ (if traceFacts st = [] then summaryFacts env (focus ctx) else traceFacts st)
                 @ cachedFunctionCallFacts st (focus ctx)\<rparr>"
  by (simp add: addFacts_def Let_def addFact_def foldl_addFact createTraceFacts_eq
      staticFacts_def cachedFunctionCallFacts_def split: option.splits)

lemma run_eq:
  "run env st selected =
     (case selected of
        None \<Rightarrow> st\<lparr>facts := []\<rparr>
      | Some ctx \<Rightarrow>
          st\<lparr>formatter := (if traceFacts st = [] then Some (focus ctx) else formatter st),
             traceFacts := (if traceFacts st = [] then summaryFacts env (focus ctx) else traceFacts st),
             facts := staticFacts env ctx
                 @ (if traceFacts st = [] then summaryFacts env (focus ctx) else traceFacts st)
                 @ cachedFunctionCallFacts st (focus ctx)\<rparr>)"
  by (simp add: run_def clearFacts_def addFacts_eq cachedFunctionCallFacts_def split: option.splits)

lemma ex_summaryFacts_A:
  "summaryFacts ex_env ex_focusA =
     [\<lparr>fact_text = ''Trace summary:\<newline>summary A'', source = ''devtools'', score = REQUIRED\<rparr>,
      \<lparr>fact_text = ''requests'', source = ''devtools'', score = CRITICAL\<rparr>,
      \<lparr>fact_text = ''tasks'', source = ''devtools'', score = CRITICAL\<rparr>]"
  by (simp add: summaryFacts_def criticalFact_def ex_env_def ex_focusA_def)

lemma ex_summaryFacts_B:
  "summaryFacts ex_env ex_focusB =
     [\<lparr>fact_text = ''Trace summary:\<newline>summary B'', source = ''devtools'', score = REQUIRED\<rparr>,
      \<lparr>fact_text = ''requests'', source = ''devtools'', score = CRITICAL\<rparr>,
      \<lparr>fact_text = ''tasks'', source = ''devtools'', score = CRITICAL\<rparr>]"
  by (simp add: summaryFacts_def criticalFact_def ex_env_def ex_focusB_def)

lemma ex_turnA_eq:
  "ex_turnA = initialAgent\<lparr>formatter := Some ex_focusA,
       traceFacts := summaryFacts ex_env ex_focusA,
       facts := staticFacts ex_env ex_contextA @ summaryFacts ex_env ex_focusA\<rparr>"
  by (simp add: ex_turnA_def run_eq initialAgent_def cachedFunctionCallFacts_def ex_contextA_def)

lemma ex_big: "MAX_FUNCTION_RESULT_BYTE_LENGTH < length ex_bigText"
  by (simp add: MAX_FUNCTION_RESULT_BYTE_LENGTH_def ex_bigText_def)

text \<open>
  Claim C10. In an agent that has its formatter (it has one from the first \<open>run\<close> with a
  selected context on, see \<open>formatter_after_run\<close> below; without one both handlers throw
  before they look at the bounds), \<open>getMainThreadTrackSummary\<close> and \<open>getNetworkTrackSummary\<close>
  return the error \<open>invalid bounds\<close> exactly when the requested \<open>min\<close> exceeds the
  requested \<open>max\<close> or no time lies both in the requested range and in the trace bounds;
  otherwise the summary is the formatter's for the requested range clamped to the trace
  bounds (and it is returned unless it is too large).
\<close>

theorem track_summary_invalid_bounds:
  assumes "formatter st = Some fm"
  shows
    "(fst (getMainThreadTrackSummary env fo mn mx st) = Returned (Error ''invalid bounds''))
       = (mx < mn \<or> \<not> rangesIntersect (parsedTrace (data fo)) mn mx) \<and>
     (fst (getNetworkTrackSummary env fo mn mx st) = Returned (Error ''invalid bounds''))
       = (mx < mn \<or> \<not> rangesIntersect (parsedTrace (data fo)) mn mx) \<and>
     (\<not> (mx < mn \<or> \<not> rangesIntersect (parsedTrace (data fo)) mn mx) \<longrightarrow>
        (let w = clampedWindow (parsedTrace (data fo)) mn mx;
             tb = traceBounds (parsedTrace (data fo))
         in minMicro tb \<le> minMicro w \<and> mn \<le> minMicro w \<and> minMicro w \<le> maxMicro w \<and>
            maxMicro w \<le> mx \<and> maxMicro w \<le> maxMicro tb \<and>
            fst (getMainThreadTrackSummary env fo mn mx st) =
              (if MAX_FUNCTION_RESULT_BYTE_LENGTH < length (formatMainThreadTrackSummary env fm w)
               then Returned (tooLargeError ''getMainThreadTrackSummary'')
               else Returned (Result (Summary (formatMainThreadTrackSummary env fm w)))) \<and>
            fst (getNetworkTrackSummary env fo mn mx st) =
              (if MAX_FUNCTION_RESULT_BYTE_LENGTH < length (formatNetworkTrackSummary env fm w)
               then Returned (tooLargeError ''getNetworkTrackSummary'')
               else Returned (Result (Summary (formatNetworkTrackSummary env fm w))))))"
proof -
  let ?bad = "mx < mn \<or> \<not> rangesIntersect (parsedTrace (data fo)) mn mx"
  note m = getMainThreadTrackSummary_outcome [OF assms, of env fo mn mx]
  note n = getNetworkTrackSummary_outcome [OF assms, of env fo mn mx]
  have 1: "(fst (getMainThreadTrackSummary env fo mn mx st) = Returned (Error ''invalid bounds'')) = ?bad"
    unfolding m by (simp add: Let_def tooLargeError_def)
  have 2: "(fst (getNetworkTrackSummary env fo mn mx st) = Returned (Error ''invalid bounds'')) = ?bad"
    unfolding n by (simp add: Let_def tooLargeError_def)
  have 3: "\<not> ?bad \<longrightarrow>
        (let w = clampedWindow (parsedTrace (data fo)) mn mx;
             tb = traceBounds (parsedTrace (data fo))
         in minMicro tb \<le> minMicro w \<and> mn \<le> minMicro w \<and> minMicro w \<le> maxMicro w \<and>
            maxMicro w \<le> mx \<and> maxMicro w \<le> maxMicro tb \<and>
            fst (getMainThreadTrackSummary env fo mn mx st) =
              (if MAX_FUNCTION_RESULT_BYTE_LENGTH < length (formatMainThreadTrackSummary env fm w)
               then Returned (tooLargeError ''getMainThreadTrackSummary'')
               else Returned (Result (Summary (formatMainThreadTrackSummary env fm w)))) \<and>
            fst (getNetworkTrackSummary env fo mn mx st) =
              (if MAX_FUNCTION_RESULT_BYTE_LENGTH < length (formatNetworkTrackSummary env fm w)
               then Returned (tooLargeError ''getNetworkTrackSummary'')
               else Returned (Result (Summary (formatNetworkTrackSummary env fm w)))))"
  proof
    assume ok: "\<not> ?bad"
    then have "\<not> mx < mn" "rangesIntersect (parsedTrace (data fo)) mn mx" by auto
    from clampedWindow_within [OF this] m n ok show "(let w = clampedWindow (parsedTrace (data fo)) mn mx;
             tb = traceBounds (parsedTrace (data fo))
         in minMicro tb \<le> minMicro w \<and> mn \<le> minMicro w \<and> minMicro w \<le> maxMicro w \<and>
            maxMicro w \<le> mx \<and> maxMicro w \<le> maxMicro tb \<and>
            fst (getMainThreadTrackSummary env fo mn mx st) =
              (if MAX_FUNCTION_RESULT_BYTE_LENGTH < length (formatMainThreadTrackSummary env fm w)
               then Returned (tooLargeError ''getMainThreadTrackSummary'')
               else Returned (Result (Summary (formatMainThreadTrackSummary env fm w)))) \<and>
            fst (getNetworkTrackSummary env fo mn mx st) =
              (if MAX_FUNCTION_RESULT_BYTE_LENGTH < length (formatNetworkTrackSummary env fm w)
               then Returned (tooLargeError ''getNetworkTrackSummary'')
               else Returned (Result (Summary (formatNetworkTrackSummary env fm w)))))"
      by (simp add: Let_def)
  qed
  from 1 2 3 show ?thesis by blast
qed

text \<open>
  The example: the trace bounds are 100 to 200. The range 150 to 120 is reversed, the range
  0 to 50 lies before the trace, and the range 50 to 150 is clamped to 100 to 150.
\<close>

theorem track_summary_invalid_bounds_witness:
  "formatter ex_turnA = Some ex_focusA \<and>
   fst (getMainThreadTrackSummary ex_env ex_focusA 150 120 ex_turnA) = Returned (Error ''invalid bounds'') \<and>
   fst (getNetworkTrackSummary ex_env ex_focusA 0 50 ex_turnA) = Returned (Error ''invalid bounds'') \<and>
   rangesIntersect (parsedTrace (data ex_focusA)) 50 150 \<and>
   clampedWindow (parsedTrace (data ex_focusA)) 50 150 = \<lparr>minMicro = 100, maxMicro = 150\<rparr> \<and>
   fst (getMainThreadTrackSummary ex_env ex_focusA 50 150 ex_turnA) = Returned (Result (Summary ''main thread''))"
proof -
  have f: "formatter ex_turnA = Some ex_focusA"
    by (simp add: ex_turnA_eq)
  have pt: "parsedTrace (data ex_focusA) = ex_trace"
    by (simp add: ex_focusA_def)
  have a: "\<not> rangesIntersect ex_trace 0 50"
    by (simp add: rangesIntersect_def ex_trace_def)
  have b: "rangesIntersect ex_trace 50 150"
    unfolding rangesIntersect_def by (rule exI [of _ 100]) (simp add: ex_trace_def)
  have w: "clampedWindow ex_trace 50 150 = \<lparr>minMicro = 100, maxMicro = 150\<rparr>"
    by (simp add: clampedWindow_def ex_trace_def)
  have s: "formatMainThreadTrackSummary ex_env ex_focusA \<lparr>minMicro = 100, maxMicro = 150\<rparr> = ''main thread''"
    by (simp add: ex_env_def)
  from track_summary_invalid_bounds [OF f, of ex_env ex_focusA 150 120]
  have 1: "fst (getMainThreadTrackSummary ex_env ex_focusA 150 120 ex_turnA) = Returned (Error ''invalid bounds'')"
    by simp
  from track_summary_invalid_bounds [OF f, of ex_env ex_focusA 0 50] a
  have 2: "fst (getNetworkTrackSummary ex_env ex_focusA 0 50 ex_turnA) = Returned (Error ''invalid bounds'')"
    by (simp add: pt)
  from track_summary_invalid_bounds [OF f, of ex_env ex_focusA 50 150] b
  have 3: "fst (getMainThreadTrackSummary ex_env ex_focusA 50 150 ex_turnA) = Returned (Result (Summary ''main thread''))"
    by (simp add: pt w s Let_def MAX_FUNCTION_RESULT_BYTE_LENGTH_def)
  from f 1 2 3 b w show ?thesis by (simp add: pt)
qed

text \<open>
  Claim C2 speaks of every declared function, but the size check is made by the two track
  summary functions only: \<open>getEventByKey\<close> returns the JSON form of an event whatever its
  length. In the example the JSON form of the event under the key \<open>r-3\<close> has 65537
  characters, one more than the limit, and is returned.
\<close>

theorem oversize_counterexample:
  "fst (handler ex_env ex_focusA (Call_getEventByKey ''r-3'') ex_turnA) = Returned (Result (Details ex_bigText)) \<and>
   payloadLength (Details ex_bigText) = 65537 \<and>
   MAX_FUNCTION_RESULT_BYTE_LENGTH = 65536"
  by (simp add: getEventByKey_def lookupEvent_def ex_env_def ex_bigEvent_def ex_focusA_def
      MAX_FUNCTION_RESULT_BYTE_LENGTH_def ex_bigText_def Let_def)

text \<open>
  Claim C2, as the code has it. For the two track summary functions,
  \<open>getMainThreadTrackSummary\<close> and \<open>getNetworkTrackSummary\<close>, a summary whose length
  (in UTF-16 code units) exceeds 16384 * 4 is not returned: a returned summary is never
  longer, and when the formatter's summary for the bounds is longer, the call yields the
  error result that asks for other functions or a more narrow bounds, and does nothing else
  but log the call. The other functions make no size check, each returns its text whatever
  the length: \<open>getInsightDetails\<close> the formatted insight, \<open>getEventByKey\<close> the JSON form
  of the event, \<open>getDetailedCallTree\<close> the formatted call tree of the event (or the text
  \<open>No call tree found\<close>), \<open>getResourceContent\<close> the content of the resource;
  \<open>selectEventByKey\<close> returns no text.
\<close>

theorem oversize_check_by_function:
  "(fst (getMainThreadTrackSummary env fo mn mx st) = Returned (Result (Summary summary))
      \<longrightarrow> length summary \<le> MAX_FUNCTION_RESULT_BYTE_LENGTH) \<and>
   (fst (getNetworkTrackSummary env fo mn mx st) = Returned (Result (Summary summary))
      \<longrightarrow> length summary \<le> MAX_FUNCTION_RESULT_BYTE_LENGTH) \<and>
   (formatter st = Some fm \<and> createBounds (parsedTrace (data fo)) mn mx = Some bounds \<and>
    MAX_FUNCTION_RESULT_BYTE_LENGTH < length (formatMainThreadTrackSummary env fm bounds)
      \<longrightarrow> getMainThreadTrackSummary env fo mn mx st =
            (Returned (tooLargeError ''getMainThreadTrackSummary''),
             debugLog st ''Function call: getMainThreadTrackSummary'' [])) \<and>
   (formatter st = Some fm \<and> createBounds (parsedTrace (data fo)) mn mx = Some bounds \<and>
    MAX_FUNCTION_RESULT_BYTE_LENGTH < length (formatNetworkTrackSummary env fm bounds)
      \<longrightarrow> getNetworkTrackSummary env fo mn mx st =
            (Returned (tooLargeError ''getNetworkTrackSummary''),
             debugLog st ''Function call: getNetworkTrackSummary'' [])) \<and>
   (insightSet fo = Some s \<and> map_of (model s) name = Some i
      \<longrightarrow> fst (getInsightDetails env fo name st) =
            Returned (Result (Details (formatInsight env fo i)))) \<and>
   (lookupEvent env (data fo) key = Inr (Some e)
      \<longrightarrow> fst (getEventByKey env fo key st) = Returned (Result (Details (JSON_stringify env e))) \<and>
          fst (selectEventByKey env fo key st) = Returned (Result (Success True)) \<and>
          (formatter st = Some fm \<longrightarrow>
             fst (getDetailedCallTree env fo key st) =
               Returned (Result (CallTreeText
                 (case AICallTree_fromEvent env e (parsedTrace (data fo)) of
                    Some tree \<Rightarrow> formatCallTree env fm tree
                  | None \<Rightarrow> ''No call tree found''))))) \<and>
   (resourceContent env url = ContentText t
      \<longrightarrow> fst (getResourceContent env fo url st) = Returned (Result (Content t)))"
proof -
  have 1: "fst (getMainThreadTrackSummary env fo mn mx st) = Returned (Result (Summary summary))
      \<longrightarrow> length summary \<le> MAX_FUNCTION_RESULT_BYTE_LENGTH"
    by (auto simp: getMainThreadTrackSummary_def debugLog_def Let_def
        isFunctionResponseTooLarge_def split: option.splits if_splits)
  have 2: "fst (getNetworkTrackSummary env fo mn mx st) = Returned (Result (Summary summary))
      \<longrightarrow> length summary \<le> MAX_FUNCTION_RESULT_BYTE_LENGTH"
    by (auto simp: getNetworkTrackSummary_def debugLog_def Let_def
        isFunctionResponseTooLarge_def split: option.splits if_splits)
  have 3: "formatter st = Some fm \<and> createBounds (parsedTrace (data fo)) mn mx = Some bounds \<and>
    MAX_FUNCTION_RESULT_BYTE_LENGTH < length (formatMainThreadTrackSummary env fm bounds)
      \<longrightarrow> getMainThreadTrackSummary env fo mn mx st =
            (Returned (tooLargeError ''getMainThreadTrackSummary''),
             debugLog st ''Function call: getMainThreadTrackSummary'' [])"
    by (simp add: getMainThreadTrackSummary_def debugLog_def Let_def
        isFunctionResponseTooLarge_def tooLargeError_def)
  have 4: "formatter st = Some fm \<and> createBounds (parsedTrace (data fo)) mn mx = Some bounds \<and>
    MAX_FUNCTION_RESULT_BYTE_LENGTH < length (formatNetworkTrackSummary env fm bounds)
      \<longrightarrow> getNetworkTrackSummary env fo mn mx st =
            (Returned (tooLargeError ''getNetworkTrackSummary''),
             debugLog st ''Function call: getNetworkTrackSummary'' [])"
    by (simp add: getNetworkTrackSummary_def debugLog_def Let_def
        isFunctionResponseTooLarge_def tooLargeError_def)
  have 5: "insightSet fo = Some s \<and> map_of (model s) name = Some i
      \<longrightarrow> fst (getInsightDetails env fo name st) =
            Returned (Result (Details (formatInsight env fo i)))"
    by (simp add: getInsightDetails_def getModelProperty_def Let_def)
  have 6: "lookupEvent env (data fo) key = Inr (Some e)
      \<longrightarrow> fst (getEventByKey env fo key st) = Returned (Result (Details (JSON_stringify env e))) \<and>
          fst (selectEventByKey env fo key st) = Returned (Result (Success True)) \<and>
          (formatter st = Some fm \<longrightarrow>
             fst (getDetailedCallTree env fo key st) =
               Returned (Result (CallTreeText
                 (case AICallTree_fromEvent env e (parsedTrace (data fo)) of
                    Some tree \<Rightarrow> formatCallTree env fm tree
                  | None \<Rightarrow> ''No call tree found''))))"
    by (simp add: getEventByKey_def selectEventByKey_def getDetailedCallTree_def debugLog_def Let_def)
  have 7: "resourceContent env url = ContentText t
      \<longrightarrow> fst (getResourceContent env fo url st) = Returned (Result (Content t))"
    by (simp add: getResourceContent_def Let_def)
  from 1 2 3 4 5 6 7 show ?thesis by (intro conjI)
qed

text \<open>
  The example: the network summary over the whole trace is too large, the one over 100 to
  120 is returned. The JSON form of the event under \<open>r-3\<close>, one character longer than the
  limit, is returned by \<open>getEventByKey\<close>; the insight \<open>LCPBreakdown\<close>, the call tree of
  the event under \<open>r-2\<close> and the content of the resource are returned as they are.
\<close>

theorem oversize_check_by_function_witness:
  "formatter ex_turnA = Some ex_focusA \<and>
   createBounds (parsedTrace (data ex_focusA)) 0 300 = Some \<lparr>minMicro = 100, maxMicro = 200\<rparr> \<and>
   MAX_FUNCTION_RESULT_BYTE_LENGTH < length (formatNetworkTrackSummary ex_env ex_focusA \<lparr>minMicro = 100, maxMicro = 200\<rparr>) \<and>
   fst (getNetworkTrackSummary ex_env ex_focusA 0 300 ex_turnA) =
     Returned (Error ''getNetworkTrackSummary response is too large. Try investigating using other functions, or a more narrow bounds'') \<and>
   fst (getNetworkTrackSummary ex_env ex_focusA 100 120 ex_turnA) = Returned (Result (Summary ''network'')) \<and>
   length ''network'' \<le> MAX_FUNCTION_RESULT_BYTE_LENGTH \<and>
   fst (getMainThreadTrackSummary ex_env ex_focusA 100 120 ex_turnA) = Returned (Result (Summary ''main thread'')) \<and>
   length ''main thread'' \<le> MAX_FUNCTION_RESULT_BYTE_LENGTH \<and>
   insightSet ex_focusA = Some ex_insightSet \<and>
   map_of (model ex_insightSet) ''LCPBreakdown'' = Some ex_insight \<and>
   fst (getInsightDetails ex_env ex_focusA ''LCPBreakdown'' ex_turnA) = Returned (Result (Details ''details of LCPBreakdown'')) \<and>
   lookupEvent ex_env (data ex_focusA) ''r-3'' = Inr (Some ex_bigEvent) \<and>
   MAX_FUNCTION_RESULT_BYTE_LENGTH < length ex_bigText \<and>
   fst (getEventByKey ex_env ex_focusA ''r-3'' ex_turnA) = Returned (Result (Details ex_bigText)) \<and>
   fst (selectEventByKey ex_env ex_focusA ''r-3'' ex_turnA) = Returned (Result (Success True)) \<and>
   lookupEvent ex_env (data ex_focusA) ''r-2'' = Inr (Some ex_task) \<and>
   fst (getDetailedCallTree ex_env ex_focusA ''r-2'' ex_turnA) = Returned (Result (CallTreeText ''tree'')) \<and>
   fst (getDetailedCallTree ex_env ex_focusA ''r-3'' ex_turnA) = Returned (Result (CallTreeText ''No call tree found'')) \<and>
   resourceContent ex_env ''https://a.com/x.js'' = ContentText ''let x = 1;'' \<and>
   fst (getResourceContent ex_env ex_focusA ''https://a.com/x.js'' ex_turnA) = Returned (Result (Content ''let x = 1;''))"
proof -
  have f: "formatter ex_turnA = Some ex_focusA"
    by (simp add: ex_turnA_eq)
  have b: "createBounds (parsedTrace (data ex_focusA)) 0 300 = Some \<lparr>minMicro = 100, maxMicro = 200\<rparr>"
    by (simp add: createBounds_def ex_focusA_def ex_trace_def)
  have l: "MAX_FUNCTION_RESULT_BYTE_LENGTH < length (formatNetworkTrackSummary ex_env ex_focusA \<lparr>minMicro = 100, maxMicro = 200\<rparr>)"
    by (simp add: ex_env_def ex_big)
  have g: "MAX_FUNCTION_RESULT_BYTE_LENGTH < length ex_bigText"
    by (simp add: ex_big)
  have i: "insightSet ex_focusA = Some ex_insightSet"
    by (simp add: ex_focusA_def)
  have m: "map_of (model ex_insightSet) ''LCPBreakdown'' = Some ex_insight"
    by (simp add: ex_insightSet_def)
  have e3: "lookupEvent ex_env (data ex_focusA) ''r-3'' = Inr (Some ex_bigEvent)"
    by (simp add: lookupEvent_def ex_env_def)
  have e2: "lookupEvent ex_env (data ex_focusA) ''r-2'' = Inr (Some ex_task)"
    by (simp add: lookupEvent_def ex_env_def)
  have c: "resourceContent ex_env ''https://a.com/x.js'' = ContentText ''let x = 1;''"
    by (simp add: ex_env_def)
  note big = oversize_check_by_function [where env = ex_env and fo = ex_focusA and mn = 0 and mx = 300
      and st = ex_turnA and fm = ex_focusA and bounds = "\<lparr>minMicro = 100, maxMicro = 200\<rparr>"
      and s = ex_insightSet and name = "''LCPBreakdown''" and i = ex_insight
      and key = "''r-3''" and e = ex_bigEvent
      and url = "''https://a.com/x.js''" and t = "''let x = 1;''"]
  from big f b l
  have 1: "fst (getNetworkTrackSummary ex_env ex_focusA 0 300 ex_turnA) =
     Returned (Error ''getNetworkTrackSummary response is too large. Try investigating using other functions, or a more narrow bounds'')"
    by (simp add: tooLargeError_def)
  have 2: "fst (getNetworkTrackSummary ex_env ex_focusA 100 120 ex_turnA) = Returned (Result (Summary ''network''))"
    by (simp add: getNetworkTrackSummary_def f debugLog_def createBounds_def ex_focusA_def ex_trace_def
        ex_env_def isFunctionResponseTooLarge_def MAX_FUNCTION_RESULT_BYTE_LENGTH_def Let_def)
  from oversize_check_by_function [where env = ex_env and fo = ex_focusA and mn = 100 and mx = 120
      and st = ex_turnA and summary = "''network''", THEN conjunct2, THEN conjunct1] 2
  have 3: "length ''network'' \<le> MAX_FUNCTION_RESULT_BYTE_LENGTH"
    by (rule mp)
  have 4: "fst (getMainThreadTrackSummary ex_env ex_focusA 100 120 ex_turnA) = Returned (Result (Summary ''main thread''))"
    by (simp add: getMainThreadTrackSummary_def f debugLog_def createBounds_def ex_focusA_def ex_trace_def
        ex_env_def isFunctionResponseTooLarge_def MAX_FUNCTION_RESULT_BYTE_LENGTH_def Let_def)
  from oversize_check_by_function [where env = ex_env and fo = ex_focusA and mn = 100 and mx = 120
      and st = ex_turnA and summary = "''main thread''", THEN conjunct1] 4
  have 5: "length ''main thread'' \<le> MAX_FUNCTION_RESULT_BYTE_LENGTH"
    by (rule mp)
  from big i m
  have 6: "fst (getInsightDetails ex_env ex_focusA ''LCPBreakdown'' ex_turnA) = Returned (Result (Details ''details of LCPBreakdown''))"
    by (simp add: ex_env_def ex_insight_def)
  from big e3
  have 7: "fst (getEventByKey ex_env ex_focusA ''r-3'' ex_turnA) = Returned (Result (Details ex_bigText))"
    by (simp add: ex_env_def ex_bigEvent_def)
  from big e3
  have 8: "fst (selectEventByKey ex_env ex_focusA ''r-3'' ex_turnA) = Returned (Result (Success True))"
    by simp
  from big e3 f
  have 9: "fst (getDetailedCallTree ex_env ex_focusA ''r-3'' ex_turnA) = Returned (Result (CallTreeText ''No call tree found''))"
    by (simp add: ex_env_def ex_bigEvent_def)
  from oversize_check_by_function [where env = ex_env and fo = ex_focusA and st = ex_turnA
      and fm = ex_focusA and key = "''r-2''" and e = ex_task] e2 f
  have 10: "fst (getDetailedCallTree ex_env ex_focusA ''r-2'' ex_turnA) = Returned (Result (CallTreeText ''tree''))"
    by (simp add: ex_env_def ex_task_def)
  from big c
  have 11: "fst (getResourceContent ex_env ex_focusA ''https://a.com/x.js'' ex_turnA) = Returned (Result (Content ''let x = 1;''))"
    by simp
  from f b l 1 2 3 4 5 i m 6 e3 g 7 8 e2 10 9 c 11 show ?thesis by (intro conjI)
qed

section \<open>Invalid references (C8)\<close>




section \<open>The function-call cache (C1)\<close>

lemmas handler_defs =
  getInsightDetails_def getEventByKey_def getMainThreadTrackSummary_def
  getNetworkTrackSummary_def getDetailedCallTree_def getResourceContent_def
  selectEventByKey_def debugLog_def cacheFunctionResult_def Let_def



lemma handler_frame:
  "formatter (snd (handler env fo call st)) = formatter st \<and>
   lastInsightForEnhancedQuery (snd (handler env fo call st)) = lastInsightForEnhancedQuery st \<and>
   hasShownAnalyzeTraceContext (snd (handler env fo call st)) = hasShownAnalyzeTraceContext st \<and>
   traceFacts (snd (handler env fo call st)) = traceFacts st \<and>
   callTreeContextSet (snd (handler env fo call st)) = callTreeContextSet st \<and>
   facts (snd (handler env fo call st)) = facts st \<and>
   functionDeclarations (snd (handler env fo call st)) = functionDeclarations st \<and>
   this_context (snd (handler env fo call st)) = this_context st"
  by (cases call) (auto simp: handler_defs split: option.splits sum.splits ResourceContent.splits ModelProperty.splits)








section \<open>The conversation state: context response and call tree (C6, C3)\<close>

lemma declareFunctions_eq:
  "declareFunctions env st ctx =
     st\<lparr>functionDeclarations := functionDeclarations st @ map (\<lambda>n. (n, ctx)) (declaredNames env ctx)\<rparr>"
  by (simp add: declareFunctions_def declareFunction_def Let_def declaredNames_def)

lemma enhanceQuery_None: "enhanceQuery env st q None = (q, st\<lparr>functionDeclarations := []\<rparr>)"
  by (simp add: enhanceQuery_def clearDeclaredFunctions_def)

lemma enhanceQuery_Some:
  "enhanceQuery env st q (Some ctx) =
     ((if callTreeSection env st (focus ctx) @ insightSection st (focus ctx) = [] then q
       else concat (callTreeSection env st (focus ctx) @ insightSection st (focus ctx)
                    @ [''# User query\<newline>\<newline>'' @ q])),
      st\<lparr>functionDeclarations := map (\<lambda>n. (n, ctx)) (declaredNames env ctx),
         callTreeContextSet :=
           (case callTree (data (focus ctx)) of
              None \<Rightarrow> callTreeContextSet st
            | Some ct \<Rightarrow> insert (callTreeRef ct) (callTreeContextSet st)),
         lastInsightForEnhancedQuery :=
           (case insight (data (focus ctx)) of
              None \<Rightarrow> lastInsightForEnhancedQuery st
            | Some i \<Rightarrow> Some i)\<rparr>)"
proof (cases "callTree (data (focus ctx))")
  case None
  show ?thesis
  proof (cases "insight (data (focus ctx))")
    case n: None
    show ?thesis
      by (simp add: enhanceQuery_def declareFunctions_eq clearDeclaredFunctions_def None n
          callTreeSection_def insightSection_def)
  next
    case (Some i)
    show ?thesis
      by (simp add: enhanceQuery_def declareFunctions_eq clearDeclaredFunctions_def None Some
          callTreeSection_def insightSection_def Let_def)
  qed
next
  case (Some ct)
  note ct = Some
  show ?thesis
  proof (cases "insight (data (focus ctx))")
    case None
    show ?thesis
      by (simp add: enhanceQuery_def declareFunctions_eq clearDeclaredFunctions_def None ct
          callTreeSection_def insightSection_def Let_def insert_absorb)
  next
    case (Some i)
    show ?thesis
      by (simp add: enhanceQuery_def declareFunctions_eq clearDeclaredFunctions_def Some ct
          callTreeSection_def insightSection_def Let_def insert_absorb)
  qed
qed

lemma step_hasShown:
  "hasShownAnalyzeTraceContext st \<Longrightarrow> hasShownAnalyzeTraceContext (step env st op')"
proof (cases op')
  case (Op_run x)
  then show "hasShownAnalyzeTraceContext st \<Longrightarrow> ?thesis"
    by (simp add: run_eq split: option.splits)
next
  case (Op_handleContextDetails x)
  then show "hasShownAnalyzeTraceContext st \<Longrightarrow> ?thesis"
    by (simp add: handleContextDetails_def split: option.splits)
next
  case (Op_enhanceQuery q x)
  then show "hasShownAnalyzeTraceContext st \<Longrightarrow> ?thesis"
    by (cases x) (simp_all add: enhanceQuery_None enhanceQuery_Some)
next
  case (Op_handler fo call)
  then show "hasShownAnalyzeTraceContext st \<Longrightarrow> ?thesis"
    by (simp add: handler_frame)
qed

lemma steps_hasShown:
  "hasShownAnalyzeTraceContext st \<Longrightarrow> hasShownAnalyzeTraceContext (steps env st ops)"
  unfolding steps_def
  by (induction ops arbitrary: st) (simp_all add: step_hasShown)

lemma step_not_shown:
  "\<not> showsContext op' \<Longrightarrow>
   hasShownAnalyzeTraceContext (step env st op') = hasShownAnalyzeTraceContext st"
proof (cases op')
  case (Op_run x)
  then show ?thesis by (simp add: run_eq split: option.splits)
next
  case (Op_handleContextDetails x)
  then show "\<not> showsContext op' \<Longrightarrow> ?thesis"
    by (cases x) (simp_all add: handleContextDetails_def)
next
  case (Op_enhanceQuery q x)
  then show ?thesis
    by (cases x) (simp_all add: enhanceQuery_None enhanceQuery_Some)
next
  case (Op_handler fo call)
  then show ?thesis by (simp add: handler_frame)
qed

lemma steps_not_shown:
  "list_all (\<lambda>op'. \<not> showsContext op') ops \<Longrightarrow>
   hasShownAnalyzeTraceContext (steps env st ops) = hasShownAnalyzeTraceContext st"
  unfolding steps_def
  by (induction ops arbitrary: st) (simp_all add: step_not_shown)

lemma step_callTreeContextSet:
  "callTreeContextSet st \<subseteq> callTreeContextSet (step env st op')"
proof (cases op')
  case (Op_run x)
  then show ?thesis by (simp add: run_eq split: option.splits)
next
  case (Op_handleContextDetails x)
  then show ?thesis by (simp add: handleContextDetails_def split: option.splits)
next
  case (Op_enhanceQuery q x)
  then show ?thesis
    by (cases x) (auto simp: enhanceQuery_None enhanceQuery_Some split: option.splits)
next
  case (Op_handler fo call)
  then show ?thesis by (simp add: handler_frame)
qed

lemma steps_callTreeContextSet:
  "callTreeContextSet st \<subseteq> callTreeContextSet (steps env st ops)"
  unfolding steps_def
proof (induction ops arbitrary: st)
  case Nil
  show ?case by simp
next
  case (Cons a ops)
  from step_callTreeContextSet [of st env a] Cons [of "step env st a"] show ?case
    by auto
qed

text \<open>
  Claim C6 says that a turn on a different context yields the CONTEXT response again. The
  agent keeps one flag for the whole conversation, not one per context: in the example the
  turn on context A yields the response, and the later turn on the different context B
  yields none.
\<close>

theorem context_response_counterexample:
  "focusRef (focus ex_contextA) \<noteq> focusRef (focus ex_contextB) \<and>
   fst (handleContextDetails ex_env ex_turnA (Some ex_contextA)) =
     [\<lparr>title = ''Analyzing trace'', details = [(''Trace'', ''summary A'')]\<rparr>] \<and>
   fst (handleContextDetails ex_env
          (run ex_env (snd (handleContextDetails ex_env ex_turnA (Some ex_contextA))) (Some ex_contextB))
          (Some ex_contextB)) = []"
  by (simp add: handleContextDetails_def run_eq ex_turnA_eq initialAgent_def ex_contextA_def
      ex_contextB_def ex_focusA_def ex_focusB_def ex_env_def)

text \<open>
  Claim C6, as the code has it. Within one conversation the CONTEXT response is yielded
  once. Without a context nothing is yielded. As long as the new agent has not run
  \<open>handleContextDetails\<close> with a context, the flag is unset; on an unset flag,
  \<open>handleContextDetails\<close> with a context yields the response and sets the flag; and once
  the flag is set, whatever the agent does next, \<open>handleContextDetails\<close> yields nothing,
  for the same and for every other context.
\<close>

theorem context_response_once_per_conversation:
  "handleContextDetails env st None = ([], st) \<and>
   (list_all (\<lambda>op'. \<not> showsContext op') ops \<longrightarrow>
      \<not> hasShownAnalyzeTraceContext (steps env initialAgent ops)) \<and>
   (\<not> hasShownAnalyzeTraceContext st \<longrightarrow>
      fst (handleContextDetails env st (Some c)) = [contextResponse env st] \<and>
      hasShownAnalyzeTraceContext (snd (handleContextDetails env st (Some c)))) \<and>
   (hasShownAnalyzeTraceContext st \<longrightarrow>
      handleContextDetails env (steps env st ops) c' = ([], steps env st ops))"
proof -
  have 1: "handleContextDetails env st None = ([], st)"
    by (simp add: handleContextDetails_def)
  have 2: "list_all (\<lambda>op'. \<not> showsContext op') ops \<longrightarrow>
      \<not> hasShownAnalyzeTraceContext (steps env initialAgent ops)"
    by (simp add: steps_not_shown initialAgent_def)
  have 3: "\<not> hasShownAnalyzeTraceContext st \<longrightarrow>
      fst (handleContextDetails env st (Some c)) = [contextResponse env st] \<and>
      hasShownAnalyzeTraceContext (snd (handleContextDetails env st (Some c)))"
    by (simp add: handleContextDetails_def contextResponse_def)
  have 4: "hasShownAnalyzeTraceContext st \<longrightarrow>
      handleContextDetails env (steps env st ops) c' = ([], steps env st ops)"
    using steps_hasShown [of st env ops]
    by (auto simp: handleContextDetails_def split: option.splits)
  from 1 2 3 4 show ?thesis by blast
qed

text \<open>
  The example: the first \<open>handleContextDetails\<close> on context A yields the response with
  the trace summary; after a turn on context B, \<open>handleContextDetails\<close> on B yields
  nothing.
\<close>

theorem context_response_once_witness:
  "list_all (\<lambda>op'. \<not> showsContext op') [Op_run (Some ex_contextA), Op_enhanceQuery ''q'' (Some ex_contextA)] \<and>
   \<not> hasShownAnalyzeTraceContext
       (steps ex_env initialAgent [Op_run (Some ex_contextA), Op_enhanceQuery ''q'' (Some ex_contextA)]) \<and>
   \<not> hasShownAnalyzeTraceContext ex_turnA \<and>
   fst (handleContextDetails ex_env ex_turnA (Some ex_contextA)) =
     [\<lparr>title = ''Analyzing trace'', details = [(''Trace'', ''summary A'')]\<rparr>] \<and>
   hasShownAnalyzeTraceContext (snd (handleContextDetails ex_env ex_turnA (Some ex_contextA))) \<and>
   fst (handleContextDetails ex_env
          (steps ex_env (snd (handleContextDetails ex_env ex_turnA (Some ex_contextA)))
             [Op_run (Some ex_contextB), Op_enhanceQuery ''q'' (Some ex_contextB)])
          (Some ex_contextB)) = []"
proof -
  let ?ops = "[Op_run (Some ex_contextA), Op_enhanceQuery ''q'' (Some ex_contextA)]"
  let ?ops' = "[Op_run (Some ex_contextB), Op_enhanceQuery ''q'' (Some ex_contextB)]"
  let ?st1 = "snd (handleContextDetails ex_env ex_turnA (Some ex_contextA))"
  have a: "list_all (\<lambda>op'. \<not> showsContext op') ?ops"
    by simp
  have n: "\<not> hasShownAnalyzeTraceContext ex_turnA"
    by (simp add: ex_turnA_eq initialAgent_def)
  have r: "contextResponse ex_env ex_turnA =
      \<lparr>title = ''Analyzing trace'', details = [(''Trace'', ''summary A'')]\<rparr>"
    by (simp add: contextResponse_def ex_turnA_eq ex_env_def ex_focusA_def)
  from context_response_once_per_conversation [where env = ex_env and ops = ?ops] a
  have 1: "\<not> hasShownAnalyzeTraceContext (steps ex_env initialAgent ?ops)"
    by blast
  from context_response_once_per_conversation [where env = ex_env and st = ex_turnA and c = ex_contextA] n r
  have 2: "fst (handleContextDetails ex_env ex_turnA (Some ex_contextA)) =
     [\<lparr>title = ''Analyzing trace'', details = [(''Trace'', ''summary A'')]\<rparr>] \<and>
     hasShownAnalyzeTraceContext ?st1"
    by simp
  with context_response_once_per_conversation [where env = ex_env and st = ?st1
      and ops = ?ops' and c' = "Some ex_contextB"]
  have 3: "fst (handleContextDetails ex_env (steps ex_env ?st1 ?ops') (Some ex_contextB)) = []"
    by simp
  from a n 1 2 3 show ?thesis by blast
qed

lemma enhanceQuery_nothing_selected:
  "callTree (data (focus c)) = None \<Longrightarrow> insight (data (focus c)) = None \<Longrightarrow>
   fst (enhanceQuery env st q (Some c)) = q"
  by (simp add: enhanceQuery_Some callTreeSection_def insightSection_def)

lemma step_callTree_not_queried:
  "\<not> queriesCallTree r op' \<Longrightarrow> r \<notin> callTreeContextSet st \<Longrightarrow>
   r \<notin> callTreeContextSet (step env st op')"
proof (cases op')
  case (Op_run x)
  then show "r \<notin> callTreeContextSet st \<Longrightarrow> ?thesis"
    by (simp add: run_eq split: option.splits)
next
  case (Op_handleContextDetails x)
  then show "r \<notin> callTreeContextSet st \<Longrightarrow> ?thesis"
    by (simp add: handleContextDetails_def split: option.splits)
next
  case (Op_enhanceQuery q x)
  then show "\<not> queriesCallTree r op' \<Longrightarrow> r \<notin> callTreeContextSet st \<Longrightarrow> ?thesis"
    by (cases x) (auto simp: enhanceQuery_None enhanceQuery_Some split: option.splits)
next
  case (Op_handler fo call)
  then show "r \<notin> callTreeContextSet st \<Longrightarrow> ?thesis"
    by (simp add: handler_frame)
qed

lemma steps_callTree_not_queried:
  "list_all (\<lambda>op'. \<not> queriesCallTree r op') ops \<Longrightarrow> r \<notin> callTreeContextSet st \<Longrightarrow>
   r \<notin> callTreeContextSet (steps env st ops)"
  unfolding steps_def
proof (induction ops arbitrary: st)
  case Nil
  then show ?case by simp
next
  case (Cons a ops)
  from Cons.prems have "\<not> queriesCallTree r a" "list_all (\<lambda>op'. \<not> queriesCallTree r op') ops"
    by simp_all
  from Cons.IH [OF this(2) step_callTree_not_queried [OF this(1) Cons.prems(2), of env]]
  show ?case by simp
qed

lemma enhanceQuery_fst_eq:
  "callTreeSection env st (focus c1) = callTreeSection env st (focus c2) \<Longrightarrow>
   insightSection st (focus c1) = insightSection st (focus c2) \<Longrightarrow>
   fst (enhanceQuery env st q (Some c1)) = fst (enhanceQuery env st q (Some c2))"
  by (simp add: enhanceQuery_Some)

text \<open>
  Claim C3. For a call tree object (identified by its reference): as long as the new agent
  has not run \<open>enhanceQuery\<close> for a context with this call tree, it is not in the agent's
  set; when it is not in the set and its serialization is not empty, the enhanced query
  starts with the
  serialization under its heading (with no insight selected it is exactly the heading, the
  serialization and the user query under its own heading); and after that call, whatever
  the agent does in between, turns on other contexts included, \<open>enhanceQuery\<close> for a
  context with the same call tree gives the query it gives for that context without a call
  tree: the serialization is not sent again.
\<close>

theorem call_tree_sent_once:
  assumes "callTree (data (focus c)) = Some ct"
    and "callTree (data (focus c')) = Some ct'"
    and "callTreeRef ct' = callTreeRef ct"
  shows
    "(list_all (\<lambda>op'. \<not> queriesCallTree (callTreeRef ct) op') ops0 \<longrightarrow>
        callTreeRef ct \<notin> callTreeContextSet (steps env initialAgent ops0)) \<and>
     (callTreeRef ct \<notin> callTreeContextSet st \<and> serialize env ct \<noteq> [] \<longrightarrow>
        startsWith (fst (enhanceQuery env st q (Some c)))
          (''User selected the following call tree:\<newline>\<newline>'' @ serialize env ct @ ''\<newline>\<newline>'') \<and>
        (insight (data (focus c)) = None \<longrightarrow>
           fst (enhanceQuery env st q (Some c)) =
             ''User selected the following call tree:\<newline>\<newline>'' @ serialize env ct @ ''\<newline>\<newline>''
             @ ''# User query\<newline>\<newline>'' @ q)) \<and>
     fst (enhanceQuery env (steps env (snd (enhanceQuery env st q (Some c))) ops) q' (Some c'))
       = fst (enhanceQuery env (steps env (snd (enhanceQuery env st q (Some c))) ops) q'
                (Some (withoutCallTree c')))"
proof -
  let ?st1 = "snd (enhanceQuery env st q (Some c))"
  let ?st2 = "steps env ?st1 ops"
  have 1: "callTreeRef ct \<notin> callTreeContextSet st \<and> serialize env ct \<noteq> [] \<longrightarrow>
        startsWith (fst (enhanceQuery env st q (Some c)))
          (''User selected the following call tree:\<newline>\<newline>'' @ serialize env ct @ ''\<newline>\<newline>'') \<and>
        (insight (data (focus c)) = None \<longrightarrow>
           fst (enhanceQuery env st q (Some c)) =
             ''User selected the following call tree:\<newline>\<newline>'' @ serialize env ct @ ''\<newline>\<newline>''
             @ ''# User query\<newline>\<newline>'' @ q)"
    using assms(1)
    by (simp add: enhanceQuery_Some callTreeSection_def insightSection_def startsWith_def)
  have "callTreeRef ct \<in> callTreeContextSet ?st1"
    using assms(1) by (simp add: enhanceQuery_Some)
  with steps_callTreeContextSet [of ?st1 env ops] assms(3)
  have m: "callTreeRef ct' \<in> callTreeContextSet ?st2"
    by auto
  have a: "callTreeSection env ?st2 (focus c') = []"
    using assms(2) m by (simp add: callTreeSection_def)
  have b: "callTreeSection env ?st2 (focus (withoutCallTree c')) = []"
    by (simp add: callTreeSection_def withoutCallTree_def)
  have i: "insightSection ?st2 (focus (withoutCallTree c')) = insightSection ?st2 (focus c')"
    by (simp add: insightSection_def withoutCallTree_def)
  have 2: "fst (enhanceQuery env ?st2 q' (Some c')) = fst (enhanceQuery env ?st2 q' (Some (withoutCallTree c')))"
    by (rule enhanceQuery_fst_eq [OF trans [OF a b [symmetric]] i [symmetric]])
  have 0: "list_all (\<lambda>op'. \<not> queriesCallTree (callTreeRef ct) op') ops0 \<longrightarrow>
        callTreeRef ct \<notin> callTreeContextSet (steps env initialAgent ops0)"
    by (simp add: steps_callTree_not_queried initialAgent_def)
  from 0 1 2 show ?thesis by blast
qed

text \<open>
  The example: the first query on context A carries the call tree; after a query on context
  B and a new turn on A, the query on A is the user's query alone.
\<close>

theorem call_tree_sent_once_witness:
  "callTree (data (focus ex_contextA)) = Some ex_callTree \<and>
   list_all (\<lambda>op'. \<not> queriesCallTree (callTreeRef ex_callTree) op') [Op_run (Some ex_contextA)] \<and>
   steps ex_env initialAgent [Op_run (Some ex_contextA)] = ex_turnA \<and>
   callTreeRef ex_callTree \<notin> callTreeContextSet ex_turnA \<and>
   serialize ex_env ex_callTree \<noteq> [] \<and>
   insight (data (focus ex_contextA)) = None \<and>
   fst (enhanceQuery ex_env ex_turnA ''why?'' (Some ex_contextA)) =
     ''User selected the following call tree:\<newline>\<newline>1;main;500;100;;\<newline>\<newline># User query\<newline>\<newline>why?'' \<and>
   fst (enhanceQuery ex_env
          (steps ex_env (snd (enhanceQuery ex_env ex_turnA ''why?'' (Some ex_contextA)))
             [Op_enhanceQuery ''other'' (Some ex_contextB), Op_run (Some ex_contextA)])
          ''again'' (Some ex_contextA)) = ''again''"
proof -
  let ?ops = "[Op_enhanceQuery ''other'' (Some ex_contextB), Op_run (Some ex_contextA)]"
  have c: "callTree (data (focus ex_contextA)) = Some ex_callTree"
    by (simp add: ex_contextA_def ex_focusA_def)
  have l: "list_all (\<lambda>op'. \<not> queriesCallTree (callTreeRef ex_callTree) op') [Op_run (Some ex_contextA)]"
    by simp
  have e: "steps ex_env initialAgent [Op_run (Some ex_contextA)] = ex_turnA"
    by (simp add: steps_def ex_turnA_def)
  have s: "serialize ex_env ex_callTree = ''1;main;500;100;;''"
    by (simp add: ex_env_def)
  have i: "insight (data (focus ex_contextA)) = None"
    by (simp add: ex_contextA_def ex_focusA_def)
  note t = call_tree_sent_once [OF c c refl, where env = ex_env and st = ex_turnA and q = "''why?''"
      and ops = ?ops and q' = "''again''" and ops0 = "[Op_run (Some ex_contextA)]"]
  have n: "callTreeRef ex_callTree \<notin> callTreeContextSet ex_turnA"
    using t [THEN conjunct1, rule_format, OF l] unfolding e .
  from t [THEN conjunct2, THEN conjunct1] n s i
  have 1: "fst (enhanceQuery ex_env ex_turnA ''why?'' (Some ex_contextA)) =
     ''User selected the following call tree:\<newline>\<newline>1;main;500;100;;\<newline>\<newline># User query\<newline>\<newline>why?''"
    by simp
  have w: "callTree (data (focus (withoutCallTree ex_contextA))) = None"
    "insight (data (focus (withoutCallTree ex_contextA))) = None"
    by (simp_all add: withoutCallTree_def ex_contextA_def ex_focusA_def)
  from t [THEN conjunct2, THEN conjunct2] enhanceQuery_nothing_selected [OF w]
  have 2: "fst (enhanceQuery ex_env
          (steps ex_env (snd (enhanceQuery ex_env ex_turnA ''why?'' (Some ex_contextA))) ?ops)
          ''again'' (Some ex_contextA)) = ''again''"
    by simp
  from s have s': "serialize ex_env ex_callTree \<noteq> []"
    by simp
  show ?thesis
    using c l e n s' i 1 2 by (intro conjI)
qed

section \<open>The formatter during a conversation\<close>

text \<open>
  The agent never drops its formatter, and it holds one whenever it holds summary facts;
  so from the first \<open>run\<close> with a selected context on, whatever else happens in the
  conversation, the formatter is there.
\<close>

lemma step_formatter:
  "formatter st \<noteq> None \<Longrightarrow> formatter (step env st op') \<noteq> None"
proof (cases op')
  case (Op_run x)
  then show "formatter st \<noteq> None \<Longrightarrow> ?thesis"
    by (simp add: run_eq split: option.splits)
next
  case (Op_handleContextDetails x)
  then show "formatter st \<noteq> None \<Longrightarrow> ?thesis"
    by (simp add: handleContextDetails_def split: option.splits)
next
  case (Op_enhanceQuery q x)
  then show "formatter st \<noteq> None \<Longrightarrow> ?thesis"
    by (cases x) (simp_all add: enhanceQuery_None enhanceQuery_Some)
next
  case (Op_handler fo call)
  then show "formatter st \<noteq> None \<Longrightarrow> ?thesis"
    by (simp add: handler_frame)
qed

lemma steps_formatter:
  "formatter st \<noteq> None \<Longrightarrow> formatter (steps env st ops) \<noteq> None"
  unfolding steps_def
proof (induction ops arbitrary: st)
  case Nil
  then show ?case by simp
next
  case (Cons a ops)
  from Cons.IH [OF step_formatter [OF Cons.prems, of env a]] show ?case by simp
qed

lemma step_formatterReady:
  "traceFacts st \<noteq> [] \<longrightarrow> formatter st \<noteq> None \<Longrightarrow>
   traceFacts (step env st op') \<noteq> [] \<longrightarrow> formatter (step env st op') \<noteq> None"
proof (cases op')
  case (Op_run x)
  then show "traceFacts st \<noteq> [] \<longrightarrow> formatter st \<noteq> None \<Longrightarrow> ?thesis"
    by (simp add: run_eq split: option.splits)
next
  case (Op_handleContextDetails x)
  then show "traceFacts st \<noteq> [] \<longrightarrow> formatter st \<noteq> None \<Longrightarrow> ?thesis"
    by (simp add: handleContextDetails_def split: option.splits)
next
  case (Op_enhanceQuery q x)
  then show "traceFacts st \<noteq> [] \<longrightarrow> formatter st \<noteq> None \<Longrightarrow> ?thesis"
    by (cases x) (simp_all add: enhanceQuery_None enhanceQuery_Some)
next
  case (Op_handler fo call)
  then show "traceFacts st \<noteq> [] \<longrightarrow> formatter st \<noteq> None \<Longrightarrow> ?thesis"
    by (simp add: handler_frame)
qed

lemma steps_formatterReady:
  "traceFacts st \<noteq> [] \<longrightarrow> formatter st \<noteq> None \<Longrightarrow>
   traceFacts (steps env st ops) \<noteq> [] \<longrightarrow> formatter (steps env st ops) \<noteq> None"
  unfolding steps_def
proof (induction ops arbitrary: st)
  case Nil
  then show ?case by simp
next
  case (Cons a ops)
  from Cons.IH [OF step_formatterReady [OF Cons.prems, of env a]] show ?case by simp
qed

lemma formatter_after_run:
  "formatter (steps env (run env (steps env initialAgent ops) (Some ctx)) ops') \<noteq> None"
proof -
  have "traceFacts initialAgent \<noteq> [] \<longrightarrow> formatter initialAgent \<noteq> None"
    by (simp add: initialAgent_def)
  from steps_formatterReady [OF this, of env ops]
  have "formatter (run env (steps env initialAgent ops) (Some ctx)) \<noteq> None"
    by (simp add: run_eq)
  then show ?thesis by (rule steps_formatter)
qed

section \<open>The fact store after run (C7)\<close>

text \<open>
  Claim C7 says that the summary facts are computed once per distinct context. The agent
  keeps one list of summary facts, not one per context: once computed they serve every
  later context. In the example the first turn is on context A, the second on the
  different context B, and the facts of the second turn hold the trace summary made for A,
  not the one for B.
\<close>

theorem fact_store_counterexample:
  "focusRef (focus ex_contextA) \<noteq> focusRef (focus ex_contextB) \<and>
   summaryFacts ex_env (focus ex_contextB) =
     [\<lparr>fact_text = ''Trace summary:\<newline>summary B'', source = ''devtools'', score = REQUIRED\<rparr>,
      \<lparr>fact_text = ''requests'', source = ''devtools'', score = CRITICAL\<rparr>,
      \<lparr>fact_text = ''tasks'', source = ''devtools'', score = CRITICAL\<rparr>] \<and>
   facts (run ex_env (run ex_env initialAgent (Some ex_contextA)) (Some ex_contextB)) =
     [notExternalExtraPreambleFact, callFrameDataDescriptionFact, networkDataDescriptionFact ex_env,
      \<lparr>fact_text = ''Trace summary:\<newline>summary A'', source = ''devtools'', score = REQUIRED\<rparr>,
      \<lparr>fact_text = ''requests'', source = ''devtools'', score = CRITICAL\<rparr>,
      \<lparr>fact_text = ''tasks'', source = ''devtools'', score = CRITICAL\<rparr>]"
proof -
  have b: "focus ex_contextB = ex_focusB" "\<not> external ex_contextB"
    by (simp_all add: ex_contextB_def)
  have a: "focus ex_contextA = ex_focusA" "\<not> external ex_contextA"
    by (simp_all add: ex_contextA_def)
  have r: "focusRef (focus ex_contextA) \<noteq> focusRef (focus ex_contextB)"
    by (simp add: a b ex_focusA_def ex_focusB_def)
  have t: "traceFacts (run ex_env initialAgent (Some ex_contextA)) = summaryFacts ex_env ex_focusA"
    by (simp add: run_eq initialAgent_def a)
  have c: "cachedFunctionCallFacts (run ex_env initialAgent (Some ex_contextA)) ex_focusB = []"
    by (simp add: run_eq initialAgent_def cachedFunctionCallFacts_def)
  have "facts (run ex_env (run ex_env initialAgent (Some ex_contextA)) (Some ex_contextB)) =
      staticFacts ex_env ex_contextB @ summaryFacts ex_env ex_focusA"
    by (subst run_eq) (simp add: t c b ex_summaryFacts_A)
  with r show ?thesis
    by (simp add: b ex_summaryFacts_A ex_summaryFacts_B staticFacts_def)
qed

text \<open>
  Claim C7, as the code has it. \<open>run\<close> without a selected context leaves the fact store
  empty (and the summary facts as they were). With a selected context the fact store is,
  in this order: the static facts (the extra preamble unless the context is external, the
  call frame format, the network format), the summary facts, the cached function-call
  facts of the context's focus; nothing of the earlier store is kept. The summary facts
  are computed from the focus of the selected context when the agent holds none, and are
  otherwise the ones it holds, whatever the context.
\<close>

theorem fact_store_after_run:
  "facts (run env st None) = [] \<and>
   traceFacts (run env st None) = traceFacts st \<and>
   traceFacts (run env st (Some ctx)) =
     (if traceFacts st = [] then summaryFacts env (focus ctx) else traceFacts st) \<and>
   facts (run env st (Some ctx)) =
     staticFacts env ctx @ traceFacts (run env st (Some ctx)) @ cachedFunctionCallFacts st (focus ctx)"
  by (simp add: run_eq)

text \<open>
  The example: without a context the store is empty; the first turn on context A gives the
  three static facts and the three non-empty summaries; after a \<open>getEventByKey\<close> call the
  next turn on A has the cached result as a seventh fact.
\<close>

theorem fact_store_after_run_witness:
  "facts (run ex_env ex_turnA None) = [] \<and>
   facts ex_turnA =
     [notExternalExtraPreambleFact, callFrameDataDescriptionFact, networkDataDescriptionFact ex_env,
      \<lparr>fact_text = ''Trace summary:\<newline>summary A'', source = ''devtools'', score = REQUIRED\<rparr>,
      \<lparr>fact_text = ''requests'', source = ''devtools'', score = CRITICAL\<rparr>,
      \<lparr>fact_text = ''tasks'', source = ''devtools'', score = CRITICAL\<rparr>] \<and>
   facts (run ex_env (snd (handler ex_env ex_focusA (Call_getEventByKey ''s-1'') ex_turnA)) (Some ex_contextA)) =
     [notExternalExtraPreambleFact, callFrameDataDescriptionFact, networkDataDescriptionFact ex_env,
      \<lparr>fact_text = ''Trace summary:\<newline>summary A'', source = ''devtools'', score = REQUIRED\<rparr>,
      \<lparr>fact_text = ''requests'', source = ''devtools'', score = CRITICAL\<rparr>,
      \<lparr>fact_text = ''tasks'', source = ''devtools'', score = CRITICAL\<rparr>,
      \<lparr>fact_text = ''This is the result of calling getEventByKey('s-1'):\<newline>{}'',
        source = ''getEventByKey('s-1')'', score = DEFAULT\<rparr>]"
proof -
  let ?st1 = "snd (handler ex_env ex_focusA (Call_getEventByKey ''s-1'') ex_turnA)"
  have a: "focus ex_contextA = ex_focusA" "\<not> external ex_contextA"
    by (simp_all add: ex_contextA_def)
  have s: "staticFacts ex_env ex_contextA =
      [notExternalExtraPreambleFact, callFrameDataDescriptionFact, networkDataDescriptionFact ex_env]"
    by (simp add: staticFacts_def a)
  have t0: "traceFacts initialAgent = []" and c0: "cachedFunctionCallFacts initialAgent ex_focusA = []"
    by (simp_all add: initialAgent_def cachedFunctionCallFacts_def)
  have t1: "traceFacts ?st1 = summaryFacts ex_env ex_focusA"
    using handler_frame [of ex_env ex_focusA "Call_getEventByKey ''s-1''" ex_turnA]
    by (simp add: ex_turnA_eq)
  have c1: "cachedFunctionCallFacts ?st1 ex_focusA =
      [\<lparr>fact_text = ''This is the result of calling getEventByKey('s-1'):\<newline>{}'',
        source = ''getEventByKey('s-1')'', score = DEFAULT\<rparr>]"
    by (simp add: cachedFunctionCallFacts_def getEventByKey_def lookupEvent_def ex_env_def Let_def
        ex_request_def cacheFunctionResult_def debugLog_def ex_turnA_eq initialAgent_def)
  from fact_store_after_run [of ex_env ex_turnA]
  have 1: "facts (run ex_env ex_turnA None) = []"
    by blast
  from fact_store_after_run [of ex_env initialAgent ex_contextA] t0 c0
  have 2: "facts ex_turnA = staticFacts ex_env ex_contextA @ summaryFacts ex_env ex_focusA"
    by (simp add: ex_turnA_def a)
  from fact_store_after_run [of ex_env ?st1 ex_contextA] t1 c1
  have 3: "facts (run ex_env ?st1 (Some ex_contextA)) =
      staticFacts ex_env ex_contextA @ summaryFacts ex_env ex_focusA @
      [\<lparr>fact_text = ''This is the result of calling getEventByKey('s-1'):\<newline>{}'',
        source = ''getEventByKey('s-1')'', score = DEFAULT\<rparr>]"
    by (simp add: a ex_summaryFacts_A)
  from 1 2 3 show ?thesis
    by (simp add: s ex_summaryFacts_A)
qed

section \<open>The response parser (C5, C4)\<close>

lemma lazyDest_text: "lazyDest s = Some (d, r) \<Longrightarrow> s = d @ '')'' @ r"
  by (induction s arbitrary: d r) (auto split: if_splits)

lemma lazyText_text: "lazyText s = Some (t, d, r) \<Longrightarrow> s = t @ '']('' @ d @ '')'' @ r"
proof (induction s arbitrary: t d r)
  case Nil
  then show ?case by simp
next
  case (Cons c cs)
  show ?case
  proof (cases "if startsWith (c # cs) '']('' then lazyDest (drop 2 (c # cs)) else None")
    case None
    with Cons.prems obtain t' where t': "lazyText cs = Some (t', d, r)" "t = c # t'"
      by (auto split: if_splits)
    from Cons.IH [OF t'(1)] t'(2) show ?thesis by simp
  next
    case (Some p)
    obtain d' r' where p: "p = (d', r')" by (cases p)
    from Some p have sw: "startsWith (c # cs) ''](''" and ld: "lazyDest (drop 2 (c # cs)) = Some (d', r')"
      by (simp_all split: if_splits)
    from sw have "c # cs = '']('' @ drop 2 (c # cs)"
      by (metis append_take_drop_id length_Cons list.size(3) numeral_2_eq_2 startsWith_def)
    moreover from lazyDest_text [OF ld] have "drop 2 (c # cs) = d' @ '')'' @ r'" .
    moreover from Cons.prems Some p have "t = []" "d = d'" "r = r'" by simp_all
    ultimately show ?thesis by simp
  qed
qed

lemma matchStandaloneUrl_text: "matchStandaloneUrl s = Some (u, r) \<Longrightarrow> s = u @ r"
proof -
  assume a: "matchStandaloneUrl s = Some (u, r)"
  have p: "startsWith s p \<Longrightarrow> s = p @ takeWhile P (drop (length p) s) @ dropWhile P (drop (length p) s)" for p P
    by (metis append_take_drop_id startsWith_def takeWhile_dropWhile_id)
  from a show ?thesis
    unfolding matchStandaloneUrl_def Let_def
    by (auto split: if_splits dest: p [of "''https://''" isUrlChar] p [of "''http://''" isUrlChar])
qed

lemma urlRegex_exec_text: "urlRegex_exec s = Some (m, r) \<Longrightarrow> s = matchText m @ r"
  by (auto simp: urlRegex_exec_def matchMarkdownLink_def
      split: option.splits list.splits if_splits
      dest: lazyText_text matchStandaloneUrl_text)

lemma urlRegex_segments_text: "concat (map segmentText (urlRegex_segments s)) = s"
proof (induction s rule: urlRegex_segments.induct)
  case 1
  show ?case by simp
next
  case (2 c cs)
  show ?case
  proof (cases "urlRegex_exec (c # cs)")
    case None
    with 2 show ?thesis by simp
  next
    case (Some p)
    obtain m r where p: "p = (m, r)" by (cases p)
    from Some p have e: "urlRegex_exec (c # cs) = Some (m, r)" by simp
    from 2 e have "concat (map segmentText (urlRegex_segments r)) = r" by simp
    then have "concat (map segmentText (urlRegex_segments (c # cs))) = matchText m @ r"
      by (simp add: e)
    with urlRegex_exec_text [OF e] show ?thesis by simp
  qed
qed

lemma replace_urlRegex_unchanged:
  assumes "\<forall>m. Matched m \<in> set (urlRegex_segments s) \<longrightarrow> callback m = matchText m"
  shows "replace_urlRegex s callback = s"
proof -
  have h: "map (\<lambda>seg. case seg of Unmatched c \<Rightarrow> [c] | Matched m \<Rightarrow> callback m) (urlRegex_segments s)
      = map segmentText (urlRegex_segments s)"
    using assms by (intro map_cong refl) (auto split: Segment.splits)
  show ?thesis
    unfolding replace_urlRegex_def h by (rule urlRegex_segments_text)
qed

lemma knownUrlCallback_internal:
  "isInternalLink m \<Longrightarrow> knownUrlCallback env fo m = matchText m"
  by (cases m) (simp_all add: knownUrlCallback_def)

lemma knownUrlCallback_known:
  "\<not> isInternalLink m \<Longrightarrow> matchUrl m \<noteq> [] \<Longrightarrow>
   find (\<lambda>request. args_data_url request = matchUrl m) (networkRequests_byTime (parsedTrace (data fo))) = Some request \<Longrightarrow>
   keyForEvent env request = Some eventKey \<Longrightarrow> eventKey \<noteq> [] \<Longrightarrow>
   knownUrlCallback env fo m = ''['' @ matchUrl m @ ''](#'' @ eventKey @ '')''"
  by (cases m) (simp_all add: knownUrlCallback_def)

lemma knownUrlCallback_unknown:
  "\<forall>request \<in> set (networkRequests_byTime (parsedTrace (data fo))). args_data_url request \<noteq> matchUrl m \<Longrightarrow>
   knownUrlCallback env fo m = matchText m"
proof -
  assume a: "\<forall>request \<in> set (networkRequests_byTime (parsedTrace (data fo))). args_data_url request \<noteq> matchUrl m"
  then have "find (\<lambda>request. args_data_url request = matchUrl m) (networkRequests_byTime (parsedTrace (data fo))) = None"
    by (simp add: find_None_iff)
  then show ?thesis
    by (cases m) (simp_all add: knownUrlCallback_def)
qed

lemma knownUrlCallback_no_key:
  "find (\<lambda>request. args_data_url request = matchUrl m) (networkRequests_byTime (parsedTrace (data fo))) = Some request \<Longrightarrow>
   keyForEvent env request = None \<Longrightarrow>
   knownUrlCallback env fo m = matchText m"
  by (cases m) (simp_all add: knownUrlCallback_def)

lemmas urlRegex_eval =
  urlRegex_exec_def matchMarkdownLink_def matchStandaloneUrl_def startsWith_def
  isUrlChar_def isWhiteSpace_def isLineTerminator_def Let_def

lemma ex_segments_swallowed:
  "urlRegex_segments ''[a] https://a.com/x.js [b](c)'' =
     [Matched (MarkdownLink ''a] https://a.com/x.js [b'' ''c'')]"
  by (simp add: urlRegex_eval)

lemma ex_segments_unkeyed:
  "urlRegex_segments ''see https://a.com/y.js now'' =
     map Unmatched ''see '' @ [Matched (StandaloneUrl ''https://a.com/y.js'')] @ map Unmatched '' now''"
  by (simp add: urlRegex_eval)

lemma ex_segments_known:
  "urlRegex_segments ''see https://a.com/x.js and [the script](https://a.com/x.js) or [x](#s-1)'' =
     map Unmatched ''see '' @ [Matched (StandaloneUrl ''https://a.com/x.js'')]
     @ map Unmatched '' and '' @ [Matched (MarkdownLink ''the script'' ''https://a.com/x.js'')]
     @ map Unmatched '' or '' @ [Matched (MarkdownLink ''x'' ''#s-1'')]"
  by (simp add: urlRegex_eval)

lemma ex_answering_context: "this_context ex_answering = Some ex_contextA"
  by (simp add: ex_answering_def)

lemma parseForKnownUrls_segments:
  "this_context st = Some ctx \<Longrightarrow> urlRegex_segments response = segs \<Longrightarrow>
   parseForKnownUrls env st response =
     concat (map (\<lambda>seg. case seg of Unmatched c \<Rightarrow> [c]
                                  | Matched m \<Rightarrow> knownUrlCallback env (focus ctx) m) segs)"
  by (simp add: parseForKnownUrls_def replace_urlRegex_def)

lemma ex_callback_request:
  "knownUrlCallback ex_env ex_focusA (StandaloneUrl ''https://a.com/x.js'') = ''[https://a.com/x.js](#s-1)''"
  "knownUrlCallback ex_env ex_focusA (MarkdownLink ''the script'' ''https://a.com/x.js'') = ''[https://a.com/x.js](#s-1)''"
  "knownUrlCallback ex_env ex_focusA (MarkdownLink ''x'' ''#s-1'') = ''[x](#s-1)''"
  "knownUrlCallback ex_env ex_focusA (StandaloneUrl ''https://a.com/y.js'') = ''https://a.com/y.js''"
  "knownUrlCallback ex_env ex_focusA (MarkdownLink ''a] https://a.com/x.js [b'' ''c'') = ''[a] https://a.com/x.js [b](c)''"
  by (simp_all add: knownUrlCallback_def ex_env_def ex_focusA_def ex_trace_def ex_request_def
      ex_unkeyedRequest_def startsWith_def)

text \<open>
  Claim C5 says that a bare URL or link destination that is the URL of a known request is
  rewritten. In the example the request with the URL \<open>https://a.com/x.js\<close> is known and
  has the key \<open>s-1\<close>, and its URL in plain text is rewritten. But after an opening
  bracket on the same line, the first alternative of the expression takes everything up to
  a later \<open>](c)\<close> as one markdown link, whose destination \<open>c\<close> is no known URL: the text,
  with the bare URL in it, stays as it is. And the request with the URL
  \<open>https://a.com/y.js\<close> has no event key: its URL stays as it is, too.
\<close>

theorem known_urls_counterexample:
  "this_context ex_answering = Some ex_contextA \<and>
   networkRequests_byTime (parsedTrace (data (focus ex_contextA))) = [ex_request, ex_unkeyedRequest] \<and>
   args_data_url ex_request = ''https://a.com/x.js'' \<and>
   keyForEvent ex_env ex_request = Some ''s-1'' \<and>
   parseForKnownUrls ex_env ex_answering ''see https://a.com/x.js now'' = ''see [https://a.com/x.js](#s-1) now'' \<and>
   parseForKnownUrls ex_env ex_answering ''[a] https://a.com/x.js [b](c)'' = ''[a] https://a.com/x.js [b](c)'' \<and>
   args_data_url ex_unkeyedRequest = ''https://a.com/y.js'' \<and>
   keyForEvent ex_env ex_unkeyedRequest = None \<and>
   parseForKnownUrls ex_env ex_answering ''see https://a.com/y.js now'' = ''see https://a.com/y.js now''"
proof -
  have s: "urlRegex_segments ''see https://a.com/x.js now'' =
     map Unmatched ''see '' @ [Matched (StandaloneUrl ''https://a.com/x.js'')] @ map Unmatched '' now''"
    by (simp add: urlRegex_eval)
  have f: "focus ex_contextA = ex_focusA"
    by (simp add: ex_contextA_def)
  have 1: "networkRequests_byTime (parsedTrace (data (focus ex_contextA))) = [ex_request, ex_unkeyedRequest]"
    "args_data_url ex_request = ''https://a.com/x.js''"
    "args_data_url ex_unkeyedRequest = ''https://a.com/y.js''"
    by (simp_all add: f ex_focusA_def ex_trace_def ex_request_def ex_unkeyedRequest_def)
  have 2: "keyForEvent ex_env ex_request = Some ''s-1''" "keyForEvent ex_env ex_unkeyedRequest = None"
    by (simp_all add: ex_env_def ex_request_def ex_unkeyedRequest_def)
  have 3: "parseForKnownUrls ex_env ex_answering ''see https://a.com/x.js now'' = ''see [https://a.com/x.js](#s-1) now''"
    unfolding parseForKnownUrls_segments [OF ex_answering_context s]
    by (simp add: f ex_callback_request)
  have 4: "parseForKnownUrls ex_env ex_answering ''[a] https://a.com/x.js [b](c)'' = ''[a] https://a.com/x.js [b](c)''"
    unfolding parseForKnownUrls_segments [OF ex_answering_context ex_segments_swallowed]
    by (simp add: f ex_callback_request)
  have 5: "parseForKnownUrls ex_env ex_answering ''see https://a.com/y.js now'' = ''see https://a.com/y.js now''"
    unfolding parseForKnownUrls_segments [OF ex_answering_context ex_segments_unkeyed]
    by (simp add: f ex_callback_request)
  from ex_answering_context 1 2 3 4 5 show ?thesis by blast
qed

text \<open>
  Claim C5, as the code has it. The response is cut into the successive matches of the
  expression and the characters between them (the segments, put together, are the
  response); without a context the response is returned as it is, with one each match is
  replaced by what the callback gives for it and the rest is kept. For a match: a markdown
  link whose destination starts with \<open>#\<close> is left as it is; a match that is not such a
  link, whose URL text (the link destination, or the bare URL) is not empty and is the URL
  of a request of the focus's trace, the first such request having a non-empty event key,
  becomes \<open>[URL](#eventKey)\<close>; a match whose URL text is the URL of no request is left as
  it is. A response all of whose matches are left as they are is returned unchanged.
\<close>

theorem known_urls_rewritten_match_by_match:
  "concat (map segmentText (urlRegex_segments response)) = response \<and>
   parseForKnownUrls env st response =
     (case this_context st of
        None \<Rightarrow> response
      | Some ctx \<Rightarrow>
          concat (map (\<lambda>seg. case seg of Unmatched c \<Rightarrow> [c]
                                       | Matched m \<Rightarrow> knownUrlCallback env (focus ctx) m)
                      (urlRegex_segments response))) \<and>
   (isInternalLink m \<longrightarrow> knownUrlCallback env fo m = matchText m) \<and>
   (\<not> isInternalLink m \<and> matchUrl m \<noteq> [] \<and>
    find (\<lambda>request. args_data_url request = matchUrl m)
         (networkRequests_byTime (parsedTrace (data fo))) = Some request \<and>
    keyForEvent env request = Some eventKey \<and> eventKey \<noteq> [] \<longrightarrow>
      knownUrlCallback env fo m = ''['' @ matchUrl m @ ''](#'' @ eventKey @ '')'') \<and>
   ((\<forall>request \<in> set (networkRequests_byTime (parsedTrace (data fo))).
        args_data_url request \<noteq> matchUrl m) \<longrightarrow>
      knownUrlCallback env fo m = matchText m) \<and>
   ((\<forall>m'. Matched m' \<in> set (urlRegex_segments response) \<longrightarrow>
        knownUrlCallback env fo m' = matchText m') \<longrightarrow>
      replace_urlRegex response (knownUrlCallback env fo) = response)"
proof -
  have 2: "parseForKnownUrls env st response =
     (case this_context st of
        None \<Rightarrow> response
      | Some ctx \<Rightarrow>
          concat (map (\<lambda>seg. case seg of Unmatched c \<Rightarrow> [c]
                                       | Matched m \<Rightarrow> knownUrlCallback env (focus ctx) m)
                      (urlRegex_segments response)))"
    by (simp add: parseForKnownUrls_def replace_urlRegex_def split: option.splits)
  from 2 urlRegex_segments_text [of response] knownUrlCallback_internal [of m env fo]
    knownUrlCallback_known [of m fo request env eventKey]
    knownUrlCallback_unknown [of fo m env]
    replace_urlRegex_unchanged [of response "knownUrlCallback env fo"]
  show ?thesis by blast
qed

text \<open>
  The example: an internal link, a link to and a bare occurrence of the known URL, and a
  text whose URLs belong to no request.
\<close>

theorem known_urls_witness:
  "isInternalLink (MarkdownLink ''x'' ''#s-1'') \<and>
   \<not> isInternalLink (MarkdownLink ''the script'' ''https://a.com/x.js'') \<and>
   find (\<lambda>request. args_data_url request = ''https://a.com/x.js'')
     (networkRequests_byTime (parsedTrace (data ex_focusA))) = Some ex_request \<and>
   keyForEvent ex_env ex_request = Some ''s-1'' \<and>
   knownUrlCallback ex_env ex_focusA (MarkdownLink ''x'' ''#s-1'') = ''[x](#s-1)'' \<and>
   knownUrlCallback ex_env ex_focusA (MarkdownLink ''the script'' ''https://a.com/x.js'') = ''[https://a.com/x.js](#s-1)'' \<and>
   knownUrlCallback ex_env ex_focusA (StandaloneUrl ''https://a.com/x.js'') = ''[https://a.com/x.js](#s-1)'' \<and>
   knownUrlCallback ex_env ex_focusA (StandaloneUrl ''https://b.org/'') = ''https://b.org/'' \<and>
   parseForKnownUrls ex_env ex_answering
     ''see https://a.com/x.js and [the script](https://a.com/x.js) or [x](#s-1)'' =
     ''see [https://a.com/x.js](#s-1) and [https://a.com/x.js](#s-1) or [x](#s-1)'' \<and>
   replace_urlRegex ''go to https://b.org/ (or [b](https://b.org/))'' (knownUrlCallback ex_env ex_focusA)
     = ''go to https://b.org/ (or [b](https://b.org/))''"
proof -
  let ?link = "MarkdownLink ''the script'' ''https://a.com/x.js''"
  let ?url = "StandaloneUrl ''https://a.com/x.js''"
  let ?int = "MarkdownLink ''x'' ''#s-1''"
  have i: "isInternalLink ?int" "\<not> isInternalLink ?link" "\<not> isInternalLink ?url"
    by (simp_all add: startsWith_def)
  have f: "find (\<lambda>request. args_data_url request = ''https://a.com/x.js'')
     (networkRequests_byTime (parsedTrace (data ex_focusA))) = Some ex_request"
    by (simp add: ex_focusA_def ex_trace_def ex_request_def)
  have k: "keyForEvent ex_env ex_request = Some ''s-1''"
    by (simp add: ex_env_def ex_request_def)
  have u: "\<forall>request \<in> set (networkRequests_byTime (parsedTrace (data ex_focusA))).
        args_data_url request \<noteq> ''https://b.org/''"
    by (simp add: ex_focusA_def ex_trace_def ex_request_def ex_unkeyedRequest_def)
  from known_urls_rewritten_match_by_match [where m = ?int and env = ex_env and fo = ex_focusA] i
  have 1: "knownUrlCallback ex_env ex_focusA ?int = ''[x](#s-1)''"
    by simp
  from known_urls_rewritten_match_by_match [where m = ?link and env = ex_env and fo = ex_focusA
      and request = ex_request and eventKey = "''s-1''"] i f k
  have 2: "knownUrlCallback ex_env ex_focusA ?link = ''[https://a.com/x.js](#s-1)''"
    by simp
  from known_urls_rewritten_match_by_match [where m = ?url and env = ex_env and fo = ex_focusA
      and request = ex_request and eventKey = "''s-1''"] i f k
  have 3: "knownUrlCallback ex_env ex_focusA ?url = ''[https://a.com/x.js](#s-1)''"
    by simp
  from known_urls_rewritten_match_by_match [where m = "StandaloneUrl ''https://b.org/''"
      and env = ex_env and fo = ex_focusA] u
  have 4: "knownUrlCallback ex_env ex_focusA (StandaloneUrl ''https://b.org/'') = ''https://b.org/''"
    by simp
  have c: "focus ex_contextA = ex_focusA"
    by (simp add: ex_contextA_def)
  have 5: "parseForKnownUrls ex_env ex_answering
     ''see https://a.com/x.js and [the script](https://a.com/x.js) or [x](#s-1)'' =
     ''see [https://a.com/x.js](#s-1) and [https://a.com/x.js](#s-1) or [x](#s-1)''"
    unfolding known_urls_rewritten_match_by_match [THEN conjunct2, THEN conjunct1]
      ex_answering_context option.case ex_segments_known c
    by (simp add: 1 2 3)
  have s: "urlRegex_segments ''go to https://b.org/ (or [b](https://b.org/))'' =
      map Unmatched ''go to '' @ [Matched (StandaloneUrl ''https://b.org/'')] @ map Unmatched '' (or ''
      @ [Matched (MarkdownLink ''b'' ''https://b.org/'')] @ map Unmatched '')''"
    by (simp add: urlRegex_eval)
  from known_urls_rewritten_match_by_match [where m = "MarkdownLink ''b'' ''https://b.org/''"
      and env = ex_env and fo = ex_focusA] u
  have 6: "knownUrlCallback ex_env ex_focusA (MarkdownLink ''b'' ''https://b.org/'') = ''[b](https://b.org/)''"
    by simp
  have "\<forall>m'. Matched m' \<in> set (urlRegex_segments ''go to https://b.org/ (or [b](https://b.org/))'') \<longrightarrow>
        knownUrlCallback ex_env ex_focusA m' = matchText m'"
    unfolding s using 4 6 by auto
  with known_urls_rewritten_match_by_match [where env = ex_env and fo = ex_focusA
      and response = "''go to https://b.org/ (or [b](https://b.org/))''"]
  have 7: "replace_urlRegex ''go to https://b.org/ (or [b](https://b.org/))'' (knownUrlCallback ex_env ex_focusA)
     = ''go to https://b.org/ (or [b](https://b.org/))''"
    by blast
  from i f k 1 2 3 4 5 7 show ?thesis by blast
qed

lemma slice_five: "slice t 5 (- 5) = drop 5 (take (length t - 5) t)"
proof -
  have "take (length t - 10) (drop 5 t) = drop 5 (take (length t - 5) t)"
    by (simp add: drop_take)
  moreover have "nat (int (length t) - 10) = length t - 10"
    by arith
  ultimately show ?thesis
    by (auto simp: slice_def Let_def min_def max_def)
qed

lemma wrapped_fence:
  assumes "startsWith t FIVE_BACKTICKS" and "endsWith t FIVE_BACKTICKS" and "10 \<le> length t"
  shows "t = FIVE_BACKTICKS @ drop 5 (take (length t - 5) t) @ FIVE_BACKTICKS"
proof -
  have l: "length FIVE_BACKTICKS = 5" by (simp add: FIVE_BACKTICKS_def)
  from assms(1) l have a: "take 5 t = FIVE_BACKTICKS" by (simp add: startsWith_def)
  from assms(2) l have b: "drop (length t - 5) t = FIVE_BACKTICKS" by (simp add: endsWith_def)
  have "t = take (length t - 5) t @ drop (length t - 5) t" by simp
  also have "take (length t - 5) t = take 5 (take (length t - 5) t) @ drop 5 (take (length t - 5) t)"
    by (simp only: append_take_drop_id)
  also have "take 5 (take (length t - 5) t) = take 5 t"
  proof -
    from assms(3) have "min 5 (length t - 5) = 5" by arith
    then show ?thesis by simp
  qed
  finally show ?thesis by (simp add: a b)
qed

lemma wrapped_short:
  "length t < 10 \<Longrightarrow> drop 5 (take (length t - 5) t) = []"
  by simp

text \<open>
  Claim C4 says that the content inside the fence is kept verbatim. The fence is stripped
  from the response after its URLs were rewritten: in the example the content is the URL of
  a known request, and what comes back is the link to its event.
\<close>

theorem fence_counterexample:
  "trim ''`````https://a.com/x.js\<newline>`````'' = FIVE_BACKTICKS @ ''https://a.com/x.js\<newline>'' @ FIVE_BACKTICKS \<and>
   parseTextResponse ex_env ex_answering ''`````https://a.com/x.js\<newline>`````'' = ''[https://a.com/x.js](#s-1)\<newline>''"
proof -
  have s: "urlRegex_segments ''`````https://a.com/x.js\<newline>`````'' =
     map Unmatched ''`````'' @ [Matched (StandaloneUrl ''https://a.com/x.js'')] @ map Unmatched ''\<newline>`````''"
    by (simp add: urlRegex_eval)
  have f: "focus ex_contextA = ex_focusA"
    by (simp add: ex_contextA_def)
  have p: "parseForKnownUrls ex_env ex_answering ''`````https://a.com/x.js\<newline>`````'' =
      ''`````[https://a.com/x.js](#s-1)\<newline>`````''"
    unfolding parseForKnownUrls_segments [OF ex_answering_context s]
    by (simp add: f ex_callback_request)
  have 1: "trim ''`````https://a.com/x.js\<newline>`````'' = FIVE_BACKTICKS @ ''https://a.com/x.js\<newline>'' @ FIVE_BACKTICKS"
    by (simp add: trim_def isWhiteSpace_def FIVE_BACKTICKS_def)
  have 2: "parseTextResponse ex_env ex_answering ''`````https://a.com/x.js\<newline>`````'' = ''[https://a.com/x.js](#s-1)\<newline>''"
    unfolding parseTextResponse_def p
    by (simp add: trim_def isWhiteSpace_def FIVE_BACKTICKS_def startsWith_def endsWith_def slice_def)
  from 1 2 show ?thesis ..
qed

text \<open>
  Claim C4, as the code has it. \<open>parseTextResponse\<close> first rewrites known URLs (which
  changes nothing when the agent has no context). When the trimmed form of the rewritten
  response both starts and ends with five backticks, the result is what lies between the
  two fences: a trimmed form of at least ten characters is the fence, the result, the
  fence; for a shorter one the result is empty. Otherwise the result is the rewritten
  response, not trimmed.
\<close>

theorem fence_stripped_after_url_rewriting:
  "(this_context st = None \<longrightarrow> parseForKnownUrls env st response = response) \<and>
   (startsWith (trim (parseForKnownUrls env st response)) FIVE_BACKTICKS \<and>
    endsWith (trim (parseForKnownUrls env st response)) FIVE_BACKTICKS \<longrightarrow>
      (10 \<le> length (trim (parseForKnownUrls env st response)) \<longrightarrow>
         trim (parseForKnownUrls env st response) =
           FIVE_BACKTICKS @ parseTextResponse env st response @ FIVE_BACKTICKS) \<and>
      (length (trim (parseForKnownUrls env st response)) < 10 \<longrightarrow>
         parseTextResponse env st response = [])) \<and>
   (\<not> (startsWith (trim (parseForKnownUrls env st response)) FIVE_BACKTICKS \<and>
        endsWith (trim (parseForKnownUrls env st response)) FIVE_BACKTICKS) \<longrightarrow>
      parseTextResponse env st response = parseForKnownUrls env st response)"
proof -
  let ?t = "trim (parseForKnownUrls env st response)"
  have 1: "this_context st = None \<longrightarrow> parseForKnownUrls env st response = response"
    by (simp add: parseForKnownUrls_def)
  have l: "int (length FIVE_BACKTICKS) = 5" by (simp add: FIVE_BACKTICKS_def)
  have w: "startsWith ?t FIVE_BACKTICKS \<and> endsWith ?t FIVE_BACKTICKS \<longrightarrow>
      parseTextResponse env st response = drop 5 (take (length ?t - 5) ?t)"
    by (simp add: parseTextResponse_def Let_def l slice_five)
  have 2: "startsWith ?t FIVE_BACKTICKS \<and> endsWith ?t FIVE_BACKTICKS \<longrightarrow>
      (10 \<le> length ?t \<longrightarrow> ?t = FIVE_BACKTICKS @ parseTextResponse env st response @ FIVE_BACKTICKS) \<and>
      (length ?t < 10 \<longrightarrow> parseTextResponse env st response = [])"
    using w wrapped_fence [of ?t] wrapped_short [of ?t] by auto
  have 3: "\<not> (startsWith ?t FIVE_BACKTICKS \<and> endsWith ?t FIVE_BACKTICKS) \<longrightarrow>
      parseTextResponse env st response = parseForKnownUrls env st response"
    by (simp add: parseTextResponse_def Let_def)
  from 1 2 3 show ?thesis by blast
qed

text \<open>
  The example, in an agent without a context: a fenced answer with white space around it,
  six backticks, and an answer that ends with the fence but does not start with it.
\<close>

theorem fence_stripped_witness:
  "this_context ex_turnA = None \<and>
   trim ''  `````# Title\<newline>text`````\<newline>'' = ''`````# Title\<newline>text`````'' \<and>
   startsWith ''`````# Title\<newline>text`````'' FIVE_BACKTICKS \<and>
   endsWith ''`````# Title\<newline>text`````'' FIVE_BACKTICKS \<and>
   parseTextResponse ex_env ex_turnA ''  `````# Title\<newline>text`````\<newline>'' = ''# Title\<newline>text'' \<and>
   parseTextResponse ex_env ex_turnA ''``````'' = [] \<and>
   \<not> startsWith (trim '' text````` '') FIVE_BACKTICKS \<and>
   parseTextResponse ex_env ex_turnA '' text````` '' = '' text````` ''"
proof -
  note t = fence_stripped_after_url_rewriting [where env = ex_env and st = ex_turnA]
  have c: "this_context ex_turnA = None"
    by (simp add: ex_turnA_eq initialAgent_def)
  with t have p: "parseForKnownUrls ex_env ex_turnA response = response" for response
    by blast
  have tr: "trim ''  `````# Title\<newline>text`````\<newline>'' = ''`````# Title\<newline>text`````''"
    "trim ''``````'' = ''``````''" "trim '' text````` '' = ''text`````''"
    by (simp_all add: trim_def isWhiteSpace_def)
  have sw: "startsWith ''`````# Title\<newline>text`````'' FIVE_BACKTICKS"
    "endsWith ''`````# Title\<newline>text`````'' FIVE_BACKTICKS"
    "startsWith ''``````'' FIVE_BACKTICKS" "endsWith ''``````'' FIVE_BACKTICKS"
    "\<not> startsWith ''text`````'' FIVE_BACKTICKS"
    by (simp_all add: startsWith_def endsWith_def FIVE_BACKTICKS_def)
  from t [where response = "''  `````# Title\<newline>text`````\<newline>''"] sw
  have "''`````# Title\<newline>text`````'' =
      FIVE_BACKTICKS @ parseTextResponse ex_env ex_turnA ''  `````# Title\<newline>text`````\<newline>'' @ FIVE_BACKTICKS"
    by (simp add: p tr)
  then have 1: "parseTextResponse ex_env ex_turnA ''  `````# Title\<newline>text`````\<newline>'' = ''# Title\<newline>text''"
    by (simp add: FIVE_BACKTICKS_def)
  from t [where response = "''``````''"] sw
  have 2: "parseTextResponse ex_env ex_turnA ''``````'' = []"
    by (simp add: p tr)
  from t [where response = "'' text````` ''"] sw
  have 3: "parseTextResponse ex_env ex_turnA '' text````` '' = '' text````` ''"
    by (simp add: p tr)
  from c tr sw 1 2 3 show ?thesis by simp
qed

end
